theory Spec2Isabelle
  imports Complex_Main
begin

section \<open>Strings and the two file-name patterns\<close>

text \<open>
  File and folder names are modelled as \<open>string\<close>: sequences of code units below 256
  (ASCII and Latin-1).  \<open>toLowerCase\<close> maps \<open>A\<close>..\<open>Z\<close> and the Latin-1 capitals
  (\<open>0xC0\<close>..\<open>0xDE\<close> apart from the multiplication sign \<open>0xD7\<close>) 32 code units up and
  leaves every other code unit of this range alone.
\<close>

definition lowerChar :: "char \<Rightarrow> char" where
  "lowerChar c =
     (let n = (of_char c :: nat)
      in if (65 \<le> n \<and> n \<le> 90) \<or> (192 \<le> n \<and> n \<le> 222 \<and> n \<noteq> 215)
         then char_of (n + 32) else c)"

definition toLowerCase :: "string \<Rightarrow> string" where
  "toLowerCase s = map lowerChar s"

text \<open>\<open>s.includes(pat)\<close>: \<open>pat\<close> occurs in \<open>s\<close> as a contiguous substring.\<close>

fun includes_str :: "string \<Rightarrow> string \<Rightarrow> bool" where
  "includes_str [] pat = (pat = [])"
| "includes_str (c # cs) pat = (take (length pat) (c # cs) = pat \<or> includes_str cs pat)"

text \<open>
  \<open>path.split('/')\<close>: one part more than there are separators; the empty path gives
  the single part \<open>''''\<close>.
\<close>

fun split :: "char \<Rightarrow> string \<Rightarrow> string list" where
  "split sep [] = [[]]"
| "split sep (c # cs) =
     (if c = sep then [] # split sep cs
      else (case split sep cs of
              [] \<Rightarrow> [[c]]
            | p # ps \<Rightarrow> (c # p) # ps))"

subsection \<open>A backtracking matcher for the regular expressions of the source\<close>

text \<open>
  The two regular expressions of \<open>handleBulkUpload\<close> use only single characters and
  character classes, the greedy \<open>+\<close> on a class, capture groups and the end anchor.
  A pattern is a list of items; \<open>Mark\<close> records the position at a group's boundary (as
  the number of characters still to read).  \<open>Plus\<close> tries the longest run first and gives
  characters back one at a time, as the backtracking matcher of the language does.
\<close>

datatype item = Ch "char \<Rightarrow> bool" | Plus "char \<Rightarrow> bool" | Mark | End

fun tryDown :: "(nat \<Rightarrow> 'a option) \<Rightarrow> nat \<Rightarrow> 'a option" where
  "tryDown f 0 = None"
| "tryDown f (Suc k) = (case f (Suc k) of Some r \<Rightarrow> Some r | None \<Rightarrow> tryDown f k)"

primrec rmatch :: "item list \<Rightarrow> string \<Rightarrow> nat list option" where
  "rmatch [] = (\<lambda>s. Some [])"
| "rmatch (i # is) = (\<lambda>s.
     case i of
       Ch p \<Rightarrow> (case s of [] \<Rightarrow> None
                | c # cs \<Rightarrow> if p c then rmatch is cs else None)
     | Plus p \<Rightarrow> tryDown (\<lambda>k. rmatch is (drop k s)) (length (takeWhile p s))
     | Mark \<Rightarrow> map_option (Cons (length s)) (rmatch is s)
     | End \<Rightarrow> (if s = [] then rmatch is s else None))"

text \<open>
  A pattern without a start anchor is tried at every start position, leftmost first.
  The result is the suffix at which the match starts together with the marks.
\<close>

fun search :: "item list \<Rightarrow> string \<Rightarrow> (string \<times> nat list) option" where
  "search pat [] = map_option (Pair []) (rmatch pat [])"
| "search pat (c # cs) =
     (case rmatch pat (c # cs) of
        Some ms \<Rightarrow> Some (c # cs, ms)
      | None \<Rightarrow> search pat cs)"

text \<open>The text of a group: between the marks \<open>a\<close> and \<open>b\<close> of the suffix \<open>s\<close>.\<close>

definition group :: "string \<Rightarrow> nat \<Rightarrow> nat \<Rightarrow> string" where
  "group s a b = take (a - b) (drop (length s - a) s)"

definition lit :: "string \<Rightarrow> item list" where
  "lit s = map (\<lambda>c. Ch (\<lambda>x. x = c)) s"

text \<open>\<open>\d\<close> is \<open>0\<close>..\<open>9\<close>; \<open>\s\<close> is white space (tab, line feed, vertical tab, form
  feed, carriage return, space, no-break space); \<open>.\<close> is any character but a line
  terminator.\<close>

definition digit :: "char \<Rightarrow> bool" where
  "digit c = (48 \<le> (of_char c :: nat) \<and> (of_char c :: nat) \<le> 57)"

definition space :: "char \<Rightarrow> bool" where
  "space c = ((of_char c :: nat) \<in> {9, 10, 11, 12, 13, 32, 160})"

definition dot :: "char \<Rightarrow> bool" where
  "dot c = ((of_char c :: nat) \<notin> {10, 13})"

text \<open>\<open>/BAB (\d+) - (.+)/\<close>\<close>

definition chapterRe :: "item list" where
  "chapterRe = lit ''BAB '' @ [Mark, Plus digit, Mark] @ lit '' - '' @ [Mark, Plus dot, Mark]"

text \<open>\<open>/(\d+\.\d+)\s+(.+)\.txt$/\<close>\<close>

definition subChapterRe :: "item list" where
  "subChapterRe =
     [Mark, Plus digit, Ch (\<lambda>x. x = CHR ''.''), Plus digit, Mark, Plus space,
      Mark, Plus dot, Mark] @ lit ''.txt'' @ [End]"

text \<open>The two capture groups of a match of either pattern.\<close>

definition captures :: "item list \<Rightarrow> string \<Rightarrow> (string \<times> string) option" where
  "captures pat s =
     (case search pat s of
        Some (t, [a, b, c, d]) \<Rightarrow> Some (group t a b, group t c d)
      | _ \<Rightarrow> None)"

text \<open>
  \<open>parseInt\<close> on a string of decimal digits, as the exact number.  (The language gives
  a double, which rounds above \<open>2^53\<close>; the handler parses the number of a folder and
  never reads it.)
\<close>

definition parseInt :: "string \<Rightarrow> nat" where
  "parseInt ds = foldl (\<lambda>n c. 10 * n + ((of_char c :: nat) - 48)) 0 ds"

section \<open>The data model\<close>

datatype ChapterType = Frontmatter | Chapter | Backmatter

record SubChapter =
  sub_id :: nat
  sub_title :: string
  sub_content :: string

text \<open>
  The objects handed to \<open>addChapter\<close>.  Identifiers come from \<open>crypto.randomUUID()\<close>:
  the model numbers the calls, so an identifier is the number of calls made before it.
  \<open>pageNumber\<close> is the optional field that the list view fills in.
\<close>

record Chapter =
  chapter_id :: nat
  title :: string
  content :: string
  images :: "string list"
  chapter_type :: ChapterType
  indentation :: nat
  lineSpacing :: real
  subChapters :: "SubChapter list"
  pageNumber :: "nat option"

text \<open>
  An uploaded file: its name, its path relative to the chosen directory, and what
  \<open>file.text()\<close> gives: the text, or the reason the read was rejected with.
\<close>

record 'e File =
  name :: string
  webkitRelativePath :: string
  file_text :: "'e + string"

section \<open>Adding an empty chapter\<close>

text \<open>\<open>handleAddChapter\<close>: the chapter handed to \<open>addChapter\<close>, \<open>u\<close> being the identifier drawn.\<close>

definition defaultTitles :: "ChapterType \<Rightarrow> string" where
  "defaultTitles ty =
     (case ty of Frontmatter \<Rightarrow> ''Kata Pengantar'' | Chapter \<Rightarrow> ''Bab Baru''
      | Backmatter \<Rightarrow> ''Penutup'')"

definition handleAddChapter :: "ChapterType \<Rightarrow> nat \<Rightarrow> Chapter" where
  "handleAddChapter ty u =
     \<lparr>chapter_id = u, title = defaultTitles ty, content = [], images = [],
      chapter_type = ty, indentation = 0, lineSpacing = 3 / 2, subChapters = [],
      pageNumber = None\<rparr>"

section \<open>The bulk upload\<close>

subsection \<open>Grouping the files by folder\<close>

text \<open>
  \<open>fileGroups\<close> is a \<open>Map\<close>, which keeps its keys in insertion order: an association
  list with one entry for each key.
\<close>

type_synonym 'e fileGroups = "(string \<times> 'e File list) list"

definition has :: "'e fileGroups \<Rightarrow> string \<Rightarrow> bool" where
  "has m k = (k \<in> set (map fst m))"

definition set_empty :: "'e fileGroups \<Rightarrow> string \<Rightarrow> 'e fileGroups" where
  "set_empty m k = m @ [(k, [])]"

definition get_push :: "'e fileGroups \<Rightarrow> string \<Rightarrow> 'e File \<Rightarrow> 'e fileGroups" where
  "get_push m k f = map (\<lambda>(k', fs). if k' = k then (k', fs @ [f]) else (k', fs)) m"

text \<open>The folder of a file: the second segment of its path, when there is one.\<close>

definition parentFolder :: "'e File \<Rightarrow> string option" where
  "parentFolder file =
     (let parts = split CHR ''/'' (webkitRelativePath file)
      in if length parts < 2 then None else Some (parts ! 1))"

definition groupStep :: "'e fileGroups \<Rightarrow> 'e File \<Rightarrow> 'e fileGroups" where
  "groupStep m file =
     (case parentFolder file of
        None \<Rightarrow> m
      | Some k \<Rightarrow> get_push (if \<not> has m k then set_empty m k else m) k file)"

definition groupFiles :: "'e File list \<Rightarrow> 'e fileGroups" where
  "groupFiles files = foldl groupStep [] files"

subsection \<open>Sorting a folder's files\<close>

text \<open>
  \<open>folderFiles.sort((a, b) => a.name.localeCompare(b.name))\<close>.  The collation of
  \<open>localeCompare\<close> belongs to the host, so it is a parameter \<open>lc\<close> (negative, zero or
  positive).  The sort is stable: an insertion sort that puts a file before the first
  file it does not come after.
\<close>

fun insertFile :: "(string \<Rightarrow> string \<Rightarrow> int) \<Rightarrow> 'e File \<Rightarrow> 'e File list \<Rightarrow> 'e File list" where
  "insertFile lc a [] = [a]"
| "insertFile lc a (b # bs) =
     (if lc (name a) (name b) \<le> 0 then a # b # bs else b # insertFile lc a bs)"

definition sortFiles :: "(string \<Rightarrow> string \<Rightarrow> int) \<Rightarrow> 'e File list \<Rightarrow> 'e File list" where
  "sortFiles lc fs = foldr (insertFile lc) fs []"

subsection \<open>The handler\<close>

definition frontmatterName :: "string \<Rightarrow> bool" where
  "frontmatterName n = includes_str (toLowerCase n) ''kata pengantar''"

definition backmatterName :: "string \<Rightarrow> bool" where
  "backmatterName n = includes_str (toLowerCase n) ''penutup''"

definition subChapterMatch :: "string \<Rightarrow> (string \<times> string) option" where
  "subChapterMatch n = captures subChapterRe n"

definition chapterMatch :: "string \<Rightarrow> (string \<times> string) option" where
  "chapterMatch n = captures chapterRe n"

text \<open>
  The inner loop over the sorted files of one folder.  \<open>u\<close> counts the identifiers
  drawn so far.  A rejected read ends the loop with the rejection.
\<close>

fun subChapterLoop ::
  "'e File list \<Rightarrow> nat \<Rightarrow> SubChapter list \<Rightarrow> 'e + (SubChapter list \<times> nat)" where
  "subChapterLoop [] u subs = Inr (subs, u)"
| "subChapterLoop (file # files) u subs =
     (case subChapterMatch (name file) of
        None \<Rightarrow> subChapterLoop files u subs
      | Some (num, t) \<Rightarrow>
          (case file_text file of
             Inl e \<Rightarrow> Inl e
           | Inr c \<Rightarrow>
               subChapterLoop files (u + 1)
                 (subs @ [\<lparr>sub_id = u, sub_title = t, sub_content = c\<rparr>])))"

text \<open>
  The loop over the folders, in the insertion order of the map.  \<open>added\<close> holds the
  chapters handed to \<open>addChapter\<close> so far, in call order; a rejected read ends the
  handler and leaves the calls already made in place.
\<close>

fun chapterLoop ::
  "(string \<Rightarrow> string \<Rightarrow> int) \<Rightarrow> 'e fileGroups \<Rightarrow> nat \<Rightarrow> Chapter list
     \<Rightarrow> ('e \<times> Chapter list) + (Chapter list \<times> nat)" where
  "chapterLoop lc [] u added = Inr (added, u)"
| "chapterLoop lc ((folderName, folderFiles) # rest) u added =
     (case chapterMatch folderName of
        None \<Rightarrow> chapterLoop lc rest u added
      | Some (num, chapterTitle) \<Rightarrow>
          (let chapterNumber = parseInt num;
               chapterId = u;
               sortedFiles = sortFiles lc folderFiles
           in case subChapterLoop sortedFiles (u + 1) [] of
                Inl e \<Rightarrow> Inl (e, added)
              | Inr (subs, u') \<Rightarrow>
                  if length subs > 0
                  then chapterLoop lc rest u'
                         (added @ [\<lparr>chapter_id = chapterId, title = chapterTitle,
                                    content = [], images = [], chapter_type = Chapter,
                                    indentation = 0, lineSpacing = 3 / 2,
                                    subChapters = subs, pageNumber = None\<rparr>])
                  else chapterLoop lc rest u' added))"

text \<open>The front-matter and back-matter steps: one chapter from the first marked file.\<close>

definition matterStep ::
  "ChapterType \<Rightarrow> string \<Rightarrow> 'e File option \<Rightarrow> nat \<Rightarrow> Chapter list
     \<Rightarrow> ('e \<times> Chapter list) + (Chapter list \<times> nat)" where
  "matterStep ty t found u added =
     (case found of
        None \<Rightarrow> Inr (added, u)
      | Some file \<Rightarrow>
          (case file_text file of
             Inl e \<Rightarrow> Inl (e, added)
           | Inr c \<Rightarrow>
               Inr (added @ [\<lparr>chapter_id = u, title = t, content = c, images = [],
                               chapter_type = ty, indentation = 0, lineSpacing = 3 / 2,
                               subChapters = [], pageNumber = None\<rparr>], u + 1)))"

text \<open>
  \<open>handleBulkUpload\<close>, started when \<open>u\<close> identifiers have been drawn.  The result is
  the sequence of chapters handed to \<open>addChapter\<close>, in call order: \<open>Inr\<close> when the handler
  runs to its end, \<open>Inl\<close> with the rejection when a read is rejected.
\<close>

definition handleBulkUpload ::
  "(string \<Rightarrow> string \<Rightarrow> int) \<Rightarrow> 'e File list \<Rightarrow> nat \<Rightarrow> ('e \<times> Chapter list) + Chapter list" where
  "handleBulkUpload lc files u =
     (if length files = 0 then Inr []
      else
        let fileGroups = groupFiles files;
            frontmatterFile = find (\<lambda>file. frontmatterName (name file)) files
        in case matterStep Frontmatter ''Kata Pengantar'' frontmatterFile u [] of
             Inl x \<Rightarrow> Inl x
           | Inr (added1, u1) \<Rightarrow>
               (case chapterLoop lc fileGroups u1 added1 of
                  Inl x \<Rightarrow> Inl x
                | Inr (added2, u2) \<Rightarrow>
                    (let backmatterFile = find (\<lambda>file. backmatterName (name file)) files
                     in case matterStep Backmatter ''Penutup'' backmatterFile u2 added2 of
                          Inl x \<Rightarrow> Inl x
                        | Inr (added3, u3) \<Rightarrow> Inr added3)))"

text \<open>The chapters handed to \<open>addChapter\<close>, whether or not the handler ran to its end.\<close>

definition added_chapters :: "('e \<times> Chapter list) + Chapter list \<Rightarrow> Chapter list" where
  "added_chapters r = (case r of Inl (e, cs) \<Rightarrow> cs | Inr cs \<Rightarrow> cs)"

section \<open>The list view\<close>

text \<open>
  The component renders the stored list in three blocks: the front matter, the main
  chapters with their running number, the back matter.  An item receives its chapter and
  the chapter's index in the stored list (\<open>indexOf\<close>, \<open>-1\<close> when absent).  \<open>indexOf\<close>
  compares by value here; the language compares objects by identity, which is the same for
  stored chapters that differ in some field, as chapters with their own identifiers do.
\<close>

definition frontmatterChapters :: "Chapter list \<Rightarrow> Chapter list" where
  "frontmatterChapters chapters = filter (\<lambda>ch. chapter_type ch = Frontmatter) chapters"

definition mainChapters :: "Chapter list \<Rightarrow> Chapter list" where
  "mainChapters chapters = filter (\<lambda>ch. chapter_type ch = Chapter) chapters"

definition backmatterChapters :: "Chapter list \<Rightarrow> Chapter list" where
  "backmatterChapters chapters = filter (\<lambda>ch. chapter_type ch = Backmatter) chapters"

fun indexOf :: "'a list \<Rightarrow> 'a \<Rightarrow> int" where
  "indexOf [] x = - 1"
| "indexOf (y # ys) x =
     (if y = x then 0 else (let i = indexOf ys x in if i < 0 then - 1 else i + 1))"

record ChapterItem =
  item_chapter :: Chapter
  item_index :: int

definition frontmatterItems :: "Chapter list \<Rightarrow> ChapterItem list" where
  "frontmatterItems chapters =
     map (\<lambda>ch. \<lparr>item_chapter = ch, item_index = indexOf chapters ch\<rparr>)
       (frontmatterChapters chapters)"

definition mainItems :: "Chapter list \<Rightarrow> ChapterItem list" where
  "mainItems chapters =
     map (\<lambda>(index, ch). \<lparr>item_chapter = ch\<lparr>pageNumber := Some (index + 1)\<rparr>,
                          item_index = indexOf chapters ch\<rparr>)
       (enumerate 0 (mainChapters chapters))"

definition backmatterItems :: "Chapter list \<Rightarrow> ChapterItem list" where
  "backmatterItems chapters =
     map (\<lambda>ch. \<lparr>item_chapter = ch, item_index = indexOf chapters ch\<rparr>)
       (backmatterChapters chapters)"

definition rendered :: "Chapter list \<Rightarrow> ChapterItem list" where
  "rendered chapters =
     frontmatterItems chapters @ mainItems chapters @ backmatterItems chapters"

text \<open>The segment invariant of a displayed list, by positions.\<close>

definition item_type :: "ChapterItem \<Rightarrow> ChapterType" where
  "item_type it = chapter_type (item_chapter it)"

definition segmentInvariant :: "ChapterItem list \<Rightarrow> bool" where
  "segmentInvariant its =
     (\<forall>i < length its. \<forall>j < length its.
        (item_type (its ! i) = Frontmatter \<and> item_type (its ! j) = Chapter \<longrightarrow> i < j) \<and>
        (item_type (its ! i) = Chapter \<and> item_type (its ! j) = Backmatter \<longrightarrow> i < j) \<and>
        (item_type (its ! i) = Frontmatter \<and> item_type (its ! j) = Backmatter \<longrightarrow> i < j))"

text \<open>The positions of the main chapters in a stored list, in ascending order.\<close>

definition bodyPositions :: "Chapter list \<Rightarrow> nat list" where
  "bodyPositions chs = filter (\<lambda>i. chapter_type (chs ! i) = Chapter) [0..<length chs]"

section \<open>Reordering\<close>

datatype reorder_error = InvalidReorder

text \<open>
  Modelled from the spec: the store's reorder operation.  The store
  (\<open>store/useEbookStore\<close>) is not among the sources; the component only calls
  \<open>reorderChapters\<close>.  The operation takes the stored list and the new order of the
  identifiers.  When the identifiers are not a permutation of the stored identifiers the
  list stays as it is and \<open>InvalidReorder\<close> is reported; otherwise the chapters are put
  in the given order.
\<close>

definition isPermutationOfIds :: "Chapter list \<Rightarrow> nat list \<Rightarrow> bool" where
  "isPermutationOfIds current newOrderOfIds =
     (distinct newOrderOfIds \<and> set newOrderOfIds = set (map chapter_id current))"

definition reorder :: "Chapter list \<Rightarrow> nat list \<Rightarrow> Chapter list \<times> reorder_error option" where
  "reorder current newOrderOfIds =
     (if isPermutationOfIds current newOrderOfIds
      then (List.map_filter (\<lambda>i. find (\<lambda>ch. chapter_id ch = i) current) newOrderOfIds, None)
      else (current, Some InvalidReorder))"

section \<open>Describing what the upload hands over\<close>

text \<open>
  Notions used to state what the handler does: the folders of a batch in the order of
  their first file (\<open>firsts\<close> keeps the first occurrence of each element), the files of a
  folder in batch order, and the title and text that a file or a folder contributes.
\<close>

definition firsts :: "'a list \<Rightarrow> 'a list" where
  "firsts xs = rev (remdups (rev xs))"

definition foldersInOrder :: "'e File list \<Rightarrow> string list" where
  "foldersInOrder files = firsts (List.map_filter parentFolder files)"

definition filesOf :: "'e File list \<Rightarrow> string \<Rightarrow> 'e File list" where
  "filesOf files k = filter (\<lambda>f. parentFolder f = Some k) files"

text \<open>The title and the text of a sub-chapter and of a chapter, identifiers left out.\<close>

definition subPair :: "SubChapter \<Rightarrow> string \<times> string" where
  "subPair s = (sub_title s, sub_content s)"

definition chapterPair :: "Chapter \<Rightarrow> string \<times> (string \<times> string) list" where
  "chapterPair c = (title c, map subPair (subChapters c))"

text \<open>
  What a file contributes to its folder's chapter when its name matches the sub-chapter
  pattern and it is read; what a folder contributes: its captured title and the
  contributions of its sorted files, when there is at least one.
\<close>

definition subRequest :: "'e File \<Rightarrow> (string \<times> string) option" where
  "subRequest f =
     (case subChapterMatch (name f) of
        None \<Rightarrow> None
      | Some (num, t) \<Rightarrow> (case file_text f of Inl e \<Rightarrow> None | Inr c \<Rightarrow> Some (t, c)))"

definition groupRequest ::
  "(string \<Rightarrow> string \<Rightarrow> int) \<Rightarrow> string \<times> 'e File list
     \<Rightarrow> (string \<times> (string \<times> string) list) option" where
  "groupRequest lc g =
     (case chapterMatch (fst g) of
        None \<Rightarrow> None
      | Some (num, t) \<Rightarrow>
          (case List.map_filter subRequest (sortFiles lc (snd g)) of
             [] \<Rightarrow> None
           | p # ps \<Rightarrow> Some (t, p # ps)))"

text \<open>The handler reads the file inside a chapter folder, and the read is rejected.\<close>

definition readRejected :: "'e File \<Rightarrow> bool" where
  "readRejected f = (subChapterMatch (name f) \<noteq> None \<and> isl (file_text f))"

text \<open>The chapters handed over by the folder loop, whether or not it ran to its end.\<close>

definition loopAdded :: "('e \<times> Chapter list) + (Chapter list \<times> nat) \<Rightarrow> Chapter list" where
  "loopAdded r = (case r of Inl (e, cs) \<Rightarrow> cs | Inr (cs, u) \<Rightarrow> cs)"

text \<open>The chapter object built for a folder, and the one built for front or back matter.\<close>

definition groupChapter :: "nat \<Rightarrow> string \<Rightarrow> SubChapter list \<Rightarrow> Chapter" where
  "groupChapter u t subs =
     \<lparr>chapter_id = u, title = t, content = [], images = [], chapter_type = Chapter,
      indentation = 0, lineSpacing = 3 / 2, subChapters = subs, pageNumber = None\<rparr>"

text \<open>The sub-chapter carries the captured title and the text of a file that was read.\<close>

definition fromFiles :: "'e File list \<Rightarrow> SubChapter \<Rightarrow> bool" where
  "fromFiles fs s =
     (\<exists>f \<in> set fs. \<exists>num. subChapterMatch (name f) = Some (num, sub_title s)
        \<and> file_text f = Inr (sub_content s))"

definition matterChapter :: "ChapterType \<Rightarrow> string \<Rightarrow> nat \<Rightarrow> string \<Rightarrow> Chapter" where
  "matterChapter ty t u c =
     \<lparr>chapter_id = u, title = t, content = c, images = [], chapter_type = ty,
      indentation = 0, lineSpacing = 3 / 2, subChapters = [], pageNumber = None\<rparr>"

text \<open>The text handed over for the marked file that was found, if it was read.\<close>

definition matterTexts :: "'e File option \<Rightarrow> string list" where
  "matterTexts found =
     (case found of
        None \<Rightarrow> []
      | Some f \<Rightarrow> (case file_text f of Inl e \<Rightarrow> [] | Inr c \<Rightarrow> [c]))"

text \<open>The first file of the batch whose name carries the marker.\<close>

definition frontmatterFile :: "'e File list \<Rightarrow> 'e File option" where
  "frontmatterFile files = find (\<lambda>file. frontmatterName (name file)) files"

definition backmatterFile :: "'e File list \<Rightarrow> 'e File option" where
  "backmatterFile files = find (\<lambda>file. backmatterName (name file)) files"

text \<open>
  The files the handler reads: the two marked files, and the files that lie in a folder
  matching the chapter pattern and match the sub-chapter pattern.
\<close>

definition inChapterFolder :: "'e File \<Rightarrow> bool" where
  "inChapterFolder f =
     (case parentFolder f of None \<Rightarrow> False | Some k \<Rightarrow> chapterMatch k \<noteq> None)"

definition filesRead :: "'e File list \<Rightarrow> 'e File list" where
  "filesRead files =
     (case frontmatterFile files of None \<Rightarrow> [] | Some f \<Rightarrow> [f])
     @ filter (\<lambda>f. inChapterFolder f \<and> subChapterMatch (name f) \<noteq> None) files
     @ (case backmatterFile files of None \<Rightarrow> [] | Some f \<Rightarrow> [f])"

text \<open>
  A folder that gives a chapter (when its files are read): it matches the chapter
  pattern and one of its files matches the sub-chapter pattern.  Its chapter's title is
  the captured title.
\<close>

definition validFolder :: "'e File list \<Rightarrow> string \<Rightarrow> bool" where
  "validFolder files k =
     (chapterMatch k \<noteq> None \<and> (\<exists>f \<in> set (filesOf files k). subChapterMatch (name f) \<noteq> None))"

definition folderTitle :: "string \<Rightarrow> string" where
  "folderTitle k = (case chapterMatch k of None \<Rightarrow> [] | Some (num, t) \<Rightarrow> t)"

text \<open>
  A collation to run the handler with: names compared code unit by code unit, a proper
  prefix first.
\<close>

fun codeUnitCompare :: "string \<Rightarrow> string \<Rightarrow> int" where
  "codeUnitCompare [] [] = 0"
| "codeUnitCompare [] (y # ys) = - 1"
| "codeUnitCompare (x # xs) [] = 1"
| "codeUnitCompare (x # xs) (y # ys) =
     (if (of_char x :: nat) < of_char y then - 1
      else if (of_char y :: nat) < of_char x then 1
      else codeUnitCompare xs ys)"

text \<open>A readable file, for concrete batches.\<close>

definition textFile :: "string \<Rightarrow> string \<Rightarrow> string \<Rightarrow> string File" where
  "textFile n p t = \<lparr>name = n, webkitRelativePath = p, file_text = Inr t\<rparr>"












section \<open>Evaluating the handler on concrete batches\<close>

lemmas handler_defs = handleBulkUpload_def matterStep_def groupFiles_def groupStep_def
  parentFolder_def has_def set_empty_def get_push_def sortFiles_def

lemma chapterMatch_Pendahuluan:
  "chapterMatch ''BAB 1 - Pendahuluan'' = Some (''1'', ''Pendahuluan'')"
  by code_simp

lemma chapterMatch_Akhir: "chapterMatch ''BAB 5 - Akhir'' = Some (''5'', ''Akhir'')"
  by code_simp

lemma subChapterMatch_Kata:
  "subChapterMatch ''1.1 Kata Pengantar.txt'' = Some (''1.1'', ''Kata Pengantar'')"
  by code_simp

lemma subChapterMatch_Penutup:
  "subChapterMatch ''5.1 Penutup.txt'' = Some (''5.1'', ''Penutup'')"
  by code_simp

lemma markers_Kata:
  "frontmatterName ''1.1 Kata Pengantar.txt''" "\<not> backmatterName ''1.1 Kata Pengantar.txt''"
  by code_simp+

lemma markers_Penutup:
  "\<not> frontmatterName ''5.1 Penutup.txt''" "backmatterName ''5.1 Penutup.txt''"
  by code_simp+

lemma split_Kata:
  "split CHR ''/'' ''Buku/BAB 1 - Pendahuluan/1.1 Kata Pengantar.txt''
     = [''Buku'', ''BAB 1 - Pendahuluan'', ''1.1 Kata Pengantar.txt'']"
  by code_simp

lemma split_Penutup:
  "split CHR ''/'' ''Buku/BAB 5 - Akhir/5.1 Penutup.txt''
     = [''Buku'', ''BAB 5 - Akhir'', ''5.1 Penutup.txt'']"
  by code_simp

text \<open>
  C10.  There are batches in which one file is emitted twice.  The file
  \<open>1.1 Kata Pengantar.txt\<close> inside the folder \<open>BAB 1 - Pendahuluan\<close> carries the
  front-matter marker and matches the sub-chapter pattern: the upload hands over a
  front-matter chapter with the file's text and a chapter \<open>Pendahuluan\<close> whose only
  sub-chapter has the same text.  Likewise \<open>5.1 Penutup.txt\<close> inside \<open>BAB 5 - Akhir\<close>
  gives a sub-chapter and the back-matter chapter.  Finding the marked file does not take
  it out of its folder's group.
\<close>

theorem C10_marked_file_emitted_twice:
  "handleBulkUpload lc
     [\<lparr>name = ''1.1 Kata Pengantar.txt'',
       webkitRelativePath = ''Buku/BAB 1 - Pendahuluan/1.1 Kata Pengantar.txt'',
       file_text = Inr t\<rparr>] u
   = Inr [\<lparr>chapter_id = u, title = ''Kata Pengantar'', content = t, images = [],
            chapter_type = Frontmatter, indentation = 0, lineSpacing = 3 / 2,
            subChapters = [], pageNumber = None\<rparr>,
          \<lparr>chapter_id = u + 1, title = ''Pendahuluan'', content = [], images = [],
            chapter_type = Chapter, indentation = 0, lineSpacing = 3 / 2,
            subChapters =
              [\<lparr>sub_id = u + 2, sub_title = ''Kata Pengantar'', sub_content = t\<rparr>],
            pageNumber = None\<rparr>]
   \<and>
   handleBulkUpload lc
     [\<lparr>name = ''5.1 Penutup.txt'',
       webkitRelativePath = ''Buku/BAB 5 - Akhir/5.1 Penutup.txt'',
       file_text = Inr t\<rparr>] u
   = Inr [\<lparr>chapter_id = u, title = ''Akhir'', content = [], images = [],
            chapter_type = Chapter, indentation = 0, lineSpacing = 3 / 2,
            subChapters = [\<lparr>sub_id = u + 1, sub_title = ''Penutup'', sub_content = t\<rparr>],
            pageNumber = None\<rparr>,
          \<lparr>chapter_id = u + 2, title = ''Penutup'', content = t, images = [],
            chapter_type = Backmatter, indentation = 0, lineSpacing = 3 / 2,
            subChapters = [], pageNumber = None\<rparr>]"
  by (simp add: handler_defs chapterMatch_Pendahuluan chapterMatch_Akhir subChapterMatch_Kata
      subChapterMatch_Penutup markers_Kata markers_Penutup split_Kata split_Penutup)

section \<open>The list view: order and numbering\<close>

lemma item_type_frontmatterItems:
  "it \<in> set (frontmatterItems chs) \<Longrightarrow> item_type it = Frontmatter"
  by (auto simp: frontmatterItems_def frontmatterChapters_def item_type_def)

lemma item_type_backmatterItems:
  "it \<in> set (backmatterItems chs) \<Longrightarrow> item_type it = Backmatter"
  by (auto simp: backmatterItems_def backmatterChapters_def item_type_def)

lemma item_type_mainItems:
  "it \<in> set (mainItems chs) \<Longrightarrow> item_type it = Chapter"
proof -
  assume "it \<in> set (mainItems chs)"
  then obtain p where mem: "p \<in> set (enumerate 0 (mainChapters chs))"
    and it: "item_chapter it = (snd p)\<lparr>pageNumber := Some (fst p + 1)\<rparr>"
    by (auto simp: mainItems_def)
  from mem have "(fst p, snd p) \<in> set (zip [0..<length (mainChapters chs)] (mainChapters chs))"
    by (simp add: enumerate_eq_zip)
  then have "snd p \<in> set (mainChapters chs)"
    by (rule set_zip_rightD)
  then show ?thesis
    using it by (simp add: item_type_def mainChapters_def)
qed

lemma segments_in_order:
  assumes "\<forall>x \<in> set A. item_type x = Frontmatter"
    and "\<forall>x \<in> set B. item_type x = Chapter"
    and "\<forall>x \<in> set C. item_type x = Backmatter"
  shows "segmentInvariant (A @ B @ C)"
  unfolding segmentInvariant_def
proof (intro allI impI)
  fix i j
  assume i: "i < length (A @ B @ C)" and j: "j < length (A @ B @ C)"
  have tyA: "\<And>k. k < length A \<Longrightarrow> item_type ((A @ B @ C) ! k) = Frontmatter"
    using assms(1) by (simp add: nth_append)
  have tyB: "\<And>k. length A \<le> k \<Longrightarrow> k < length A + length B
               \<Longrightarrow> item_type ((A @ B @ C) ! k) = Chapter"
    using assms(2) by (simp add: nth_append)
  have tyC: "\<And>k. length A + length B \<le> k \<Longrightarrow> k < length (A @ B @ C)
               \<Longrightarrow> item_type ((A @ B @ C) ! k) = Backmatter"
    using assms(3) by (simp add: nth_append)
  consider "i < length A" | "length A \<le> i" "i < length A + length B"
    | "length A + length B \<le> i" by linarith
  then have ci: "(item_type ((A @ B @ C) ! i) = Frontmatter \<longrightarrow> i < length A)
      \<and> (item_type ((A @ B @ C) ! i) = Chapter \<longrightarrow> i < length A + length B)"
    using tyA tyB tyC i by cases auto
  consider "j < length A" | "length A \<le> j" "j < length A + length B"
    | "length A + length B \<le> j" by linarith
  then have cj: "(item_type ((A @ B @ C) ! j) = Chapter \<longrightarrow> length A \<le> j)
      \<and> (item_type ((A @ B @ C) ! j) = Backmatter \<longrightarrow> length A + length B \<le> j)"
    using tyA tyB tyC j by cases auto
  show "(item_type ((A @ B @ C) ! i) = Frontmatter \<and> item_type ((A @ B @ C) ! j) = Chapter \<longrightarrow> i < j) \<and>
        (item_type ((A @ B @ C) ! i) = Chapter \<and> item_type ((A @ B @ C) ! j) = Backmatter \<longrightarrow> i < j) \<and>
        (item_type ((A @ B @ C) ! i) = Frontmatter \<and> item_type ((A @ B @ C) ! j) = Backmatter \<longrightarrow> i < j)"
    using ci cj by auto
qed

text \<open>
  C2.  Whatever the store's \<open>addChapter\<close> does with a new chapter, after every append
  of creation requests the displayed list satisfies the segment invariant: every
  front-matter item stands before every main-chapter item, which stands before every
  back-matter item.  The store's mutator is not among the sources, so it is a parameter;
  the order comes from the three blocks of the view.
\<close>

theorem C2_display_segment_invariant: "segmentInvariant (rendered (foldl addChapter current created))"
  unfolding rendered_def
  by (intro segments_in_order ballI item_type_frontmatterItems item_type_mainItems
      item_type_backmatterItems)

theorem C2_display_segment_invariant_witness:
  "rendered (foldl (\<lambda>cs c. cs @ [c]) [handleAddChapter Backmatter 0]
       [handleAddChapter Chapter 1, handleAddChapter Frontmatter 2])
     = [\<lparr>item_chapter = handleAddChapter Frontmatter 2, item_index = 2\<rparr>,
        \<lparr>item_chapter = (handleAddChapter Chapter 1)\<lparr>pageNumber := Some 1\<rparr>, item_index = 1\<rparr>,
        \<lparr>item_chapter = handleAddChapter Backmatter 0, item_index = 0\<rparr>]
   \<and> segmentInvariant (rendered (foldl (\<lambda>cs c. cs @ [c]) [handleAddChapter Backmatter 0]
       [handleAddChapter Chapter 1, handleAddChapter Frontmatter 2]))"
  using C2_display_segment_invariant [of "\<lambda>cs c. cs @ [c]" "[handleAddChapter Backmatter 0]"
      "[handleAddChapter Chapter 1, handleAddChapter Frontmatter 2]"]
  by (simp add: rendered_def frontmatterItems_def mainItems_def backmatterItems_def
      frontmatterChapters_def mainChapters_def backmatterChapters_def handleAddChapter_def)

lemma filter_by_positions:
  "filter P xs = map ((!) xs) (filter (\<lambda>i. P (xs ! i)) [0..<length xs])"
proof -
  have "filter P xs = filter P (map ((!) xs) [0..<length xs])"
    by (simp add: map_nth)
  also have "\<dots> = map ((!) xs) (filter (P \<circ> (!) xs) [0..<length xs])"
    by (simp only: filter_map)
  finally show ?thesis by (simp add: comp_def)
qed

lemma map_enumerate_positions:
  "map g (enumerate 0 ys) = map (\<lambda>j. g (j, ys ! j)) [0..<length ys]"
  by (rule nth_equalityI) (simp_all add: nth_enumerate_eq)

text \<open>
  C3.  With the main chapters of a stored list at the positions \<open>p1 < ... < pk\<close>, the
  view numbers exactly these chapters, in list order, with \<open>1..k\<close>.  Front-matter and
  back-matter chapters are passed on as they are and take no number, however they are
  interleaved with the main chapters.
\<close>

theorem C3_page_numbers:
  "mainItems chs =
     map (\<lambda>j. \<lparr>item_chapter = (chs ! (bodyPositions chs ! j))\<lparr>pageNumber := Some (j + 1)\<rparr>,
               item_index = indexOf chs (chs ! (bodyPositions chs ! j))\<rparr>)
       [0..<length (bodyPositions chs)]
   \<and> map (pageNumber \<circ> item_chapter) (mainItems chs)
       = map Some [1..<length (bodyPositions chs) + 1]
   \<and> map item_chapter (frontmatterItems chs) = frontmatterChapters chs
   \<and> map item_chapter (backmatterItems chs) = backmatterChapters chs"
proof -
  have main: "mainChapters chs = map ((!) chs) (bodyPositions chs)"
    unfolding mainChapters_def bodyPositions_def by (rule filter_by_positions)
  have a: "mainItems chs =
     map (\<lambda>j. \<lparr>item_chapter = (chs ! (bodyPositions chs ! j))\<lparr>pageNumber := Some (j + 1)\<rparr>,
               item_index = indexOf chs (chs ! (bodyPositions chs ! j))\<rparr>)
       [0..<length (bodyPositions chs)]"
    unfolding mainItems_def map_enumerate_positions main by simp
  have b: "map (pageNumber \<circ> item_chapter) (mainItems chs)
       = map Some [1..<length (bodyPositions chs) + 1]"
  proof -
    have "map Some [1..<length (bodyPositions chs) + 1]
            = map (\<lambda>j. Some (j + 1)) [0..<length (bodyPositions chs)]"
      using map_Suc_upt [of 0 "length (bodyPositions chs)"]
      by (simp del: upt_Suc add: map_Suc_upt [symmetric])
    then show ?thesis unfolding a by (simp add: comp_def)
  qed
  show ?thesis using a b
    by (simp add: frontmatterItems_def backmatterItems_def comp_def)
qed

section \<open>Reordering by identifiers\<close>

lemma find_by_id:
  "i \<in> set (map chapter_id current) \<Longrightarrow>
     \<exists>ch. find (\<lambda>ch. chapter_id ch = i) current = Some ch \<and> chapter_id ch = i \<and> ch \<in> set current"
  by (induction current) auto

lemma map_filter_find_ids:
  "set ids \<subseteq> set (map chapter_id current) \<Longrightarrow>
     map chapter_id (List.map_filter (\<lambda>i. find (\<lambda>ch. chapter_id ch = i) current) ids) = ids"
proof (induction ids)
  case Nil
  then show ?case by (simp add: List.map_filter_simps)
next
  case (Cons i ids)
  then obtain ch where "find (\<lambda>ch. chapter_id ch = i) current = Some ch" "chapter_id ch = i"
    using find_by_id [of i current] by auto
  with Cons show ?case by (simp add: List.map_filter_simps)
qed

lemma map_filter_find_subset:
  "set (List.map_filter (\<lambda>i. find (\<lambda>ch. chapter_id ch = i) current) ids) \<subseteq> set current"
proof (induction ids)
  case Nil
  then show ?case by (simp add: List.map_filter_simps)
next
  case (Cons i ids)
  show ?case
  proof (cases "find (\<lambda>ch. chapter_id ch = i) current")
    case None
    with Cons show ?thesis by (simp add: List.map_filter_simps)
  next
    case (Some ch)
    then have "ch \<in> set current" by (auto simp: find_Some_iff)
    with Cons Some show ?thesis by (simp add: List.map_filter_simps)
  qed
qed

text \<open>
  C4.  For every stored list and every sequence of identifiers that is not a
  permutation of the stored identifiers (an identifier is missing, occurs twice, or is
  unknown), the reorder operation reports \<open>InvalidReorder\<close> and leaves the stored list as
  it is.  For every permutation the new list has the given identifiers in the given
  order: the same identifiers as before, each once, and only chapters of the stored list.
\<close>

theorem C4_reorder_permutation:
  "((\<exists>i \<in> set (map chapter_id current). i \<notin> set ids) \<or> \<not> distinct ids
      \<or> (\<exists>i \<in> set ids. i \<notin> set (map chapter_id current))
     \<longrightarrow> reorder current ids = (current, Some InvalidReorder))
   \<and> (distinct ids \<and> set ids = set (map chapter_id current)
     \<longrightarrow> snd (reorder current ids) = None
        \<and> map chapter_id (fst (reorder current ids)) = ids
        \<and> set (map chapter_id (fst (reorder current ids))) = set (map chapter_id current)
        \<and> distinct (map chapter_id (fst (reorder current ids)))
        \<and> set (fst (reorder current ids)) \<subseteq> set current)"
proof (intro conjI impI)
  assume "(\<exists>i \<in> set (map chapter_id current). i \<notin> set ids) \<or> \<not> distinct ids
      \<or> (\<exists>i \<in> set ids. i \<notin> set (map chapter_id current))"
  then have "\<not> isPermutationOfIds current ids"
    unfolding isPermutationOfIds_def by blast
  then show "reorder current ids = (current, Some InvalidReorder)"
    by (simp add: reorder_def)
next
  assume perm: "distinct ids \<and> set ids = set (map chapter_id current)"
  then have r: "reorder current ids
      = (List.map_filter (\<lambda>i. find (\<lambda>ch. chapter_id ch = i) current) ids, None)"
    by (simp add: reorder_def isPermutationOfIds_def)
  have ids: "map chapter_id (fst (reorder current ids)) = ids"
    unfolding r using perm by (simp add: map_filter_find_ids)
  show "snd (reorder current ids) = None" by (simp add: r)
  show "map chapter_id (fst (reorder current ids)) = ids" by (rule ids)
  show "set (map chapter_id (fst (reorder current ids))) = set (map chapter_id current)"
    unfolding ids using perm by simp
  show "distinct (map chapter_id (fst (reorder current ids)))"
    unfolding ids using perm by simp
  show "set (fst (reorder current ids)) \<subseteq> set current"
    unfolding r by (simp add: map_filter_find_subset)
qed

theorem C4_reorder_permutation_witness:
  "distinct [1, 0 :: nat]
   \<and> set [1, 0] = set (map chapter_id [handleAddChapter Frontmatter 0, handleAddChapter Chapter 1])
   \<and> reorder [handleAddChapter Frontmatter 0, handleAddChapter Chapter 1] [1, 0]
       = ([handleAddChapter Chapter 1, handleAddChapter Frontmatter 0], None)
   \<and> \<not> distinct [1, 1 :: nat]
   \<and> reorder [handleAddChapter Frontmatter 0, handleAddChapter Chapter 1] [1, 1]
       = ([handleAddChapter Frontmatter 0, handleAddChapter Chapter 1], Some InvalidReorder)"
  using C4_reorder_permutation [of "[handleAddChapter Frontmatter 0, handleAddChapter Chapter 1]" "[1, 0]"]
    C4_reorder_permutation [of "[handleAddChapter Frontmatter 0, handleAddChapter Chapter 1]" "[1, 1]"]
  by (simp add: reorder_def isPermutationOfIds_def handleAddChapter_def List.map_filter_simps
      insert_commute)

section \<open>The groups of a batch\<close>

lemma firsts_snoc: "firsts (xs @ [x]) = (if x \<in> set xs then firsts xs else firsts xs @ [x])"
  by (simp add: firsts_def)

lemma set_firsts: "set (firsts xs) = set xs"
  by (simp add: firsts_def)

lemma distinct_firsts: "distinct (firsts xs)"
  by (simp add: firsts_def)

lemma map_filter_snoc:
  "List.map_filter g (xs @ [x]) =
     (case g x of None \<Rightarrow> List.map_filter g xs | Some y \<Rightarrow> List.map_filter g xs @ [y])"
  by (simp add: List.map_filter_def split: option.split)

lemma filesOf_snoc:
  "filesOf (fs @ [f]) k = (if parentFolder f = Some k then filesOf fs k @ [f] else filesOf fs k)"
  by (simp add: filesOf_def)

lemma filesOf_empty:
  "k \<notin> set (List.map_filter parentFolder fs) \<Longrightarrow> filesOf fs k = []"
  by (auto simp: filesOf_def List.map_filter_def filter_empty_conv image_iff)

lemma groupFiles_snoc: "groupFiles (fs @ [f]) = groupStep (groupFiles fs) f"
  by (simp add: groupFiles_def)

lemma groupFiles_eq:
  "groupFiles files = map (\<lambda>k. (k, filesOf files k)) (foldersInOrder files)"
proof (induction files rule: rev_induct)
  case Nil
  then show ?case
    by (simp add: groupFiles_def foldersInOrder_def firsts_def List.map_filter_simps)
next
  case (snoc f fs)
  show ?case
  proof (cases "parentFolder f")
    case None
    then show ?thesis
      using snoc
      by (simp add: groupFiles_snoc groupStep_def foldersInOrder_def map_filter_snoc filesOf_snoc)
  next
    case (Some k0)
    show ?thesis
    proof (cases "k0 \<in> set (List.map_filter parentFolder fs)")
      case True
      then have h: "has (groupFiles fs) k0"
        using snoc by (simp add: has_def foldersInOrder_def set_firsts comp_def)
      show ?thesis
        using Some True h snoc
        by (simp add: groupFiles_snoc groupStep_def foldersInOrder_def map_filter_snoc
            filesOf_snoc firsts_snoc get_push_def)
    next
      case False
      then have h: "\<not> has (groupFiles fs) k0"
        using snoc by (simp add: has_def foldersInOrder_def set_firsts comp_def)
      have e: "filesOf fs k0 = []" using False by (rule filesOf_empty)
      have "get_push (set_empty (groupFiles fs) k0) k0 f
              = map (\<lambda>k. (k, filesOf fs k)) (foldersInOrder fs) @ [(k0, [f])]"
        using False snoc
        by (auto simp: get_push_def set_empty_def foldersInOrder_def set_firsts)
      then show ?thesis
        using Some False h e
        by (auto simp: groupFiles_snoc groupStep_def foldersInOrder_def map_filter_snoc
            filesOf_snoc firsts_snoc set_firsts)
    qed
  qed
qed

section \<open>The loop over the files of a folder\<close>

lemma set_insertFile: "set (insertFile lc a bs) = insert a (set bs)"
  by (induction bs) auto

lemma set_sortFiles: "set (sortFiles lc fs) = set fs"
  by (induction fs) (simp_all add: sortFiles_def set_insertFile)

lemma subChapterLoop_Inr:
  "subChapterLoop fs u subs = Inr (subs', u') \<Longrightarrow>
     map subPair subs' = map subPair subs @ List.map_filter subRequest fs
     \<and> (\<forall>f \<in> set fs. \<not> readRejected f)"
proof (induction fs arbitrary: u subs)
  case Nil
  then show ?case by (simp add: List.map_filter_simps)
next
  case (Cons f fs)
  show ?case
  proof (cases "subChapterMatch (name f)")
    case None
    with Cons show ?thesis
      by (simp add: List.map_filter_simps subRequest_def readRejected_def)
  next
    case (Some p)
    obtain num t where p: "p = (num, t)" by (cases p)
    show ?thesis
    proof (cases "file_text f")
      case (Inl e)
      with Cons.prems Some p show ?thesis by simp
    next
      case (Inr c)
      with Cons.prems Some p
      have "subChapterLoop fs (u + 1)
              (subs @ [\<lparr>sub_id = u, sub_title = t, sub_content = c\<rparr>]) = Inr (subs', u')"
        by simp
      from Cons.IH [OF this] Some p Inr show ?thesis
        by (simp add: List.map_filter_simps subRequest_def readRejected_def subPair_def)
    qed
  qed
qed


lemma subChapterLoop_isl:
  "isl (subChapterLoop fs u subs) \<longleftrightarrow> (\<exists>f \<in> set fs. readRejected f)"
proof (induction fs arbitrary: u subs)
  case Nil
  then show ?case by simp
next
  case (Cons f fs)
  then show ?case
    by (auto simp: readRejected_def split: option.splits sum.splits)
qed

lemma subChapterLoop_fromFile:
  "subChapterLoop fs u subs = Inr (subs', u') \<Longrightarrow> s \<in> set subs' \<Longrightarrow>
     s \<in> set subs \<or> (\<exists>f \<in> set fs. \<exists>num. subChapterMatch (name f) = Some (num, sub_title s)
                         \<and> file_text f = Inr (sub_content s))"
proof (induction fs arbitrary: u subs)
  case Nil
  then show ?case by simp
next
  case (Cons f fs)
  show ?case
  proof (cases "subChapterMatch (name f)")
    case None
    with Cons show ?thesis by auto
  next
    case (Some p)
    obtain num t where p: "p = (num, t)" by (cases p)
    show ?thesis
    proof (cases "file_text f")
      case (Inl e)
      with Cons.prems Some p show ?thesis by simp
    next
      case (Inr c)
      with Cons.prems Some p
      have "subChapterLoop fs (u + 1)
              (subs @ [\<lparr>sub_id = u, sub_title = t, sub_content = c\<rparr>]) = Inr (subs', u')"
        by simp
      from Cons.IH [OF this Cons.prems(2)] Some p Inr show ?thesis
        by auto
    qed
  qed
qed

section \<open>The loop over the folders\<close>

lemma chapterLoop_unmatched:
  "chapterMatch k = None \<Longrightarrow> chapterLoop lc ((k, fs) # rest) u added = chapterLoop lc rest u added"
  by simp

lemma chapterLoop_rejected:
  "chapterMatch k = Some (num, t) \<Longrightarrow> subChapterLoop (sortFiles lc fs) (u + 1) [] = Inl e \<Longrightarrow>
     chapterLoop lc ((k, fs) # rest) u added = Inl (e, added)"
  by simp

lemma chapterLoop_dropped:
  "chapterMatch k = Some (num, t) \<Longrightarrow> subChapterLoop (sortFiles lc fs) (u + 1) [] = Inr ([], u') \<Longrightarrow>
     chapterLoop lc ((k, fs) # rest) u added = chapterLoop lc rest u' added"
  by simp

lemma chapterLoop_added:
  "chapterMatch k = Some (num, t) \<Longrightarrow> subChapterLoop (sortFiles lc fs) (u + 1) [] = Inr (subs, u') \<Longrightarrow>
     subs \<noteq> [] \<Longrightarrow>
     chapterLoop lc ((k, fs) # rest) u added
       = chapterLoop lc rest u' (added @ [groupChapter u t subs])"
  by (simp add: groupChapter_def)

lemma chapterLoop_cases:
  obtains (unmatched) "chapterMatch k = None"
  | (rejected) num t e where "chapterMatch k = Some (num, t)"
      "subChapterLoop (sortFiles lc fs) (u + 1) [] = Inl e"
  | (dropped) num t u' where "chapterMatch k = Some (num, t)"
      "subChapterLoop (sortFiles lc fs) (u + 1) [] = Inr ([], u')"
  | (added) num t subs u' where "chapterMatch k = Some (num, t)"
      "subChapterLoop (sortFiles lc fs) (u + 1) [] = Inr (subs, u')" "subs \<noteq> []"
proof (cases "chapterMatch k")
  case None
  then show ?thesis by (rule unmatched)
next
  case (Some p)
  obtain num t where p: "p = (num, t)" by (cases p)
  show ?thesis
  proof (cases "subChapterLoop (sortFiles lc fs) (u + 1) []")
    case (Inl e)
    with Some p show ?thesis by (auto intro: rejected)
  next
    case (Inr q)
    obtain subs u' where q: "q = (subs, u')" by (cases q)
    show ?thesis
    proof (cases "subs = []")
      case True
      with Some p Inr q show ?thesis by (auto intro: dropped)
    next
      case False
      with Some p Inr q show ?thesis by (auto intro: added)
    qed
  qed
qed

lemma fromFiles_mono: "set fs \<subseteq> set gs \<Longrightarrow> fromFiles fs s \<Longrightarrow> fromFiles gs s"
  unfolding fromFiles_def by blast

lemma chapterLoop_new:
  "\<exists>new. loopAdded (chapterLoop lc gs u added) = added @ new
     \<and> (\<forall>c \<in> set new. chapter_type c = Chapter \<and> content c = [] \<and> subChapters c \<noteq> []
           \<and> (\<forall>s \<in> set (subChapters c). fromFiles (concat (map snd gs)) s))"
proof (induction gs arbitrary: u added)
  case Nil
  then show ?case by (simp add: loopAdded_def)
next
  case (Cons g gs)
  obtain k fs where g: "g = (k, fs)" by (cases g)
  have mono: "\<And>s. fromFiles (concat (map snd gs)) s \<Longrightarrow> fromFiles (concat (map snd (g # gs))) s"
    by (rule fromFiles_mono [rotated]) auto
  show ?case
  proof (cases rule: chapterLoop_cases [where k = k and lc = lc and fs = fs and u = u])
    case unmatched
    from Cons.IH [of u added] obtain new where
      "loopAdded (chapterLoop lc gs u added) = added @ new"
      "\<forall>c \<in> set new. chapter_type c = Chapter \<and> content c = [] \<and> subChapters c \<noteq> []
           \<and> (\<forall>s \<in> set (subChapters c). fromFiles (concat (map snd gs)) s)"
      by blast
    then show ?thesis
      unfolding g chapterLoop_unmatched [OF unmatched] using mono g by blast
  next
    case (rejected num t e)
    show ?thesis
      unfolding g chapterLoop_rejected [OF rejected] by (simp add: loopAdded_def)
  next
    case (dropped num t u')
    from Cons.IH [of u' added] obtain new where
      "loopAdded (chapterLoop lc gs u' added) = added @ new"
      "\<forall>c \<in> set new. chapter_type c = Chapter \<and> content c = [] \<and> subChapters c \<noteq> []
           \<and> (\<forall>s \<in> set (subChapters c). fromFiles (concat (map snd gs)) s)"
      by blast
    then show ?thesis
      unfolding g chapterLoop_dropped [OF dropped] using mono g by blast
  next
    case (added num t subs u')
    from Cons.IH [of u' "added @ [groupChapter u t subs]"] obtain new where
      new: "loopAdded (chapterLoop lc gs u' (added @ [groupChapter u t subs]))
              = added @ groupChapter u t subs # new"
      and props: "\<forall>c \<in> set new. chapter_type c = Chapter \<and> content c = [] \<and> subChapters c \<noteq> []
           \<and> (\<forall>s \<in> set (subChapters c). fromFiles (concat (map snd gs)) s)"
      by auto
    have "\<forall>s \<in> set subs. fromFiles fs s"
      using subChapterLoop_fromFile [OF added(2)]
      by (auto simp: fromFiles_def set_sortFiles)
    then have here: "\<forall>s \<in> set subs. fromFiles (concat (map snd (g # gs))) s"
      using g by (auto intro: fromFiles_mono [rotated])
    have "\<forall>c \<in> set (groupChapter u t subs # new).
            chapter_type c = Chapter \<and> content c = [] \<and> subChapters c \<noteq> []
            \<and> (\<forall>s \<in> set (subChapters c). fromFiles (concat (map snd (g # gs))) s)"
      using props here added(3) mono by (auto simp: groupChapter_def)
    with new show ?thesis
      unfolding g chapterLoop_added [OF added] by blast
  qed
qed

lemma groupRequest_unmatched: "chapterMatch k = None \<Longrightarrow> groupRequest lc (k, fs) = None"
  by (simp add: groupRequest_def)

lemma groupRequest_matched:
  "chapterMatch k = Some (num, t) \<Longrightarrow>
     groupRequest lc (k, fs) =
       (if List.map_filter subRequest (sortFiles lc fs) = [] then None
        else Some (t, List.map_filter subRequest (sortFiles lc fs)))"
  by (simp add: groupRequest_def split: list.split)

lemma chapterLoop_Inr:
  "chapterLoop lc gs u added = Inr (added', u') \<Longrightarrow>
     \<exists>new. added' = added @ new
       \<and> map chapterPair new = List.map_filter (groupRequest lc) gs
       \<and> (\<forall>g \<in> set gs. chapterMatch (fst g) \<noteq> None \<longrightarrow> (\<forall>f \<in> set (snd g). \<not> readRejected f))"
proof (induction gs arbitrary: u added)
  case Nil
  then show ?case by (simp add: List.map_filter_simps)
next
  case (Cons g gs)
  obtain k fs where g: "g = (k, fs)" by (cases g)
  show ?case
  proof (cases rule: chapterLoop_cases [where k = k and lc = lc and fs = fs and u = u])
    case unmatched
    from Cons.prems have "chapterLoop lc gs u added = Inr (added', u')"
      unfolding g chapterLoop_unmatched [OF unmatched] .
    from Cons.IH [OF this] show ?thesis
      using unmatched g by (auto simp: List.map_filter_simps groupRequest_unmatched)
  next
    case (rejected num t e)
    with Cons.prems show ?thesis
      unfolding g chapterLoop_rejected [OF rejected] by simp
  next
    case (dropped num t u1)
    from Cons.prems have "chapterLoop lc gs u1 added = Inr (added', u')"
      unfolding g chapterLoop_dropped [OF dropped] .
    from Cons.IH [OF this] subChapterLoop_Inr [OF dropped(2)] show ?thesis
      using dropped(1) g
      by (auto simp: List.map_filter_simps groupRequest_matched set_sortFiles)
  next
    case (added num t subs u1)
    from Cons.prems
    have "chapterLoop lc gs u1 (added @ [groupChapter u t subs]) = Inr (added', u')"
      unfolding g chapterLoop_added [OF added] .
    from Cons.IH [OF this] obtain new where
      new: "added' = added @ groupChapter u t subs # new"
      and pairs: "map chapterPair new = List.map_filter (groupRequest lc) gs"
      and reads: "\<forall>g \<in> set gs. chapterMatch (fst g) \<noteq> None \<longrightarrow> (\<forall>f \<in> set (snd g). \<not> readRejected f)"
      by auto
    from subChapterLoop_Inr [OF added(2)]
    have subs: "map subPair subs = List.map_filter subRequest (sortFiles lc fs)"
      and ok: "\<forall>f \<in> set fs. \<not> readRejected f"
      by (simp_all add: set_sortFiles)
    from subs added(3) have ne: "List.map_filter subRequest (sortFiles lc fs) \<noteq> []"
      by (metis map_is_Nil_conv)
    have "map chapterPair (groupChapter u t subs # new)
            = List.map_filter (groupRequest lc) (g # gs)"
      using pairs subs ne added(1) g
      by (simp add: List.map_filter_simps groupRequest_matched chapterPair_def groupChapter_def)
    with new reads ok g show ?thesis by auto
  qed
qed


lemma chapterLoop_isl:
  "isl (chapterLoop lc gs u added) \<longleftrightarrow>
     (\<exists>g \<in> set gs. chapterMatch (fst g) \<noteq> None \<and> (\<exists>f \<in> set (snd g). readRejected f))"
proof (induction gs arbitrary: u added)
  case Nil
  then show ?case by simp
next
  case (Cons g gs)
  obtain k fs where g: "g = (k, fs)" by (cases g)
  show ?case
  proof (cases rule: chapterLoop_cases [where k = k and lc = lc and fs = fs and u = u])
    case unmatched
    show ?thesis
      unfolding g chapterLoop_unmatched [OF unmatched] Cons.IH using unmatched by simp
  next
    case (rejected num t e)
    from rejected(2) have "isl (subChapterLoop (sortFiles lc fs) (u + 1) [])" by simp
    then have "\<exists>f \<in> set fs. readRejected f"
      by (simp add: subChapterLoop_isl set_sortFiles)
    then show ?thesis
      unfolding g chapterLoop_rejected [OF rejected] using rejected(1) by auto
  next
    case (dropped num t u1)
    from dropped(2) have "\<not> isl (subChapterLoop (sortFiles lc fs) (u + 1) [])" by simp
    then have "\<not> (\<exists>f \<in> set fs. readRejected f)"
      by (simp add: subChapterLoop_isl set_sortFiles)
    then show ?thesis
      unfolding g chapterLoop_dropped [OF dropped] Cons.IH by auto
  next
    case (added num t subs u1)
    from added(2) have "\<not> isl (subChapterLoop (sortFiles lc fs) (u + 1) [])" by simp
    then have "\<not> (\<exists>f \<in> set fs. readRejected f)"
      by (simp add: subChapterLoop_isl set_sortFiles)
    then show ?thesis
      unfolding g chapterLoop_added [OF added] Cons.IH by auto
  qed
qed

section \<open>The front-matter and back-matter steps, and the groups as sets\<close>

lemma matterStep_Inr:
  "matterStep ty t found u added = Inr (added', u') \<Longrightarrow>
     added' = added @ map (matterChapter ty t u) (matterTexts found)
     \<and> (\<forall>f. found = Some f \<longrightarrow> \<not> isl (file_text f))"
  by (auto simp: matterStep_def matterTexts_def matterChapter_def split: option.splits sum.splits)

lemma matterStep_Inl:
  "matterStep ty t found u added = Inl (e, cs) \<Longrightarrow>
     cs = added \<and> (\<exists>f. found = Some f \<and> file_text f = Inl e)"
  by (auto simp: matterStep_def split: option.splits sum.splits)

lemma matterStep_isl:
  "isl (matterStep ty t found u added) \<longleftrightarrow> (\<exists>f. found = Some f \<and> isl (file_text f))"
  by (auto simp: matterStep_def split: option.splits sum.splits)

lemma matterTexts_length: "length (matterTexts found) \<le> 1"
  by (simp add: matterTexts_def split: option.splits sum.splits)

lemma find_in_set: "find P xs = Some x \<Longrightarrow> x \<in> set xs \<and> P x"
  by (auto simp: find_Some_iff)


lemma groupFiles_member:
  "g \<in> set (groupFiles files) \<longleftrightarrow>
     (\<exists>k. g = (k, filesOf files k) \<and> (\<exists>f \<in> set files. parentFolder f = Some k))"
  by (auto simp: groupFiles_eq foldersInOrder_def set_firsts List.map_filter_def image_iff)

lemma set_filesOf: "set (filesOf files k) = {f \<in> set files. parentFolder f = Some k}"
  by (simp add: filesOf_def)

lemma groupFiles_files: "set (concat (map snd (groupFiles files))) \<subseteq> set files"
  by (auto simp: groupFiles_member set_filesOf)

lemma groups_rejected:
  "(\<exists>g \<in> set (groupFiles files). chapterMatch (fst g) \<noteq> None \<and> (\<exists>f \<in> set (snd g). Q f))
     \<longleftrightarrow> (\<exists>f \<in> set files. inChapterFolder f \<and> Q f)"
proof
  assume "\<exists>g \<in> set (groupFiles files). chapterMatch (fst g) \<noteq> None \<and> (\<exists>f \<in> set (snd g). Q f)"
  then obtain g f where g: "g \<in> set (groupFiles files)" "chapterMatch (fst g) \<noteq> None"
    and "f \<in> set (snd g)" "Q f"
    by blast
  moreover from g(1) obtain k where "g = (k, filesOf files k)"
    unfolding groupFiles_member by blast
  ultimately have "chapterMatch k \<noteq> None" "f \<in> set (filesOf files k)" "Q f"
    by simp_all
  then have "f \<in> set files \<and> inChapterFolder f \<and> Q f"
    by (simp add: set_filesOf inChapterFolder_def)
  then show "\<exists>f \<in> set files. inChapterFolder f \<and> Q f" by blast
next
  assume "\<exists>f \<in> set files. inChapterFolder f \<and> Q f"
  then obtain f k where f: "f \<in> set files" "parentFolder f = Some k" "chapterMatch k \<noteq> None" "Q f"
    by (auto simp: inChapterFolder_def split: option.splits)
  then have "(k, filesOf files k) \<in> set (groupFiles files)" "f \<in> set (filesOf files k)"
    by (auto simp: groupFiles_member set_filesOf)
  with f show "\<exists>g \<in> set (groupFiles files). chapterMatch (fst g) \<noteq> None \<and> (\<exists>f \<in> set (snd g). Q f)"
    by force
qed

section \<open>The handler as a whole\<close>

lemma handleBulkUpload_steps:
  "handleBulkUpload lc files u =
     (case matterStep Frontmatter ''Kata Pengantar'' (frontmatterFile files) u [] of
        Inl x \<Rightarrow> Inl x
      | Inr (added1, u1) \<Rightarrow>
          (case chapterLoop lc (groupFiles files) u1 added1 of
             Inl x \<Rightarrow> Inl x
           | Inr (added2, u2) \<Rightarrow>
               (case matterStep Backmatter ''Penutup'' (backmatterFile files) u2 added2 of
                  Inl x \<Rightarrow> Inl x
                | Inr (added3, u3) \<Rightarrow> Inr added3)))"
proof (cases "files = []")
  case True
  then show ?thesis
    by (simp add: handleBulkUpload_def frontmatterFile_def backmatterFile_def groupFiles_def
        matterStep_def)
next
  case False
  then show ?thesis
    by (simp add: handleBulkUpload_def frontmatterFile_def backmatterFile_def Let_def
        split: sum.split prod.split)
qed

lemma frontmatterFile_read: "frontmatterFile files = Some f \<Longrightarrow> f \<in> set (filesRead files)"
  by (simp add: filesRead_def)

lemma backmatterFile_read: "backmatterFile files = Some f \<Longrightarrow> f \<in> set (filesRead files)"
  by (simp add: filesRead_def)

lemma folder_read:
  "f \<in> set files \<Longrightarrow> inChapterFolder f \<Longrightarrow> subChapterMatch (name f) \<noteq> None
     \<Longrightarrow> f \<in> set (filesRead files)"
  by (simp add: filesRead_def)

lemma filesRead_cases:
  "f \<in> set (filesRead files) \<Longrightarrow>
     frontmatterFile files = Some f \<or> backmatterFile files = Some f
     \<or> (f \<in> set files \<and> inChapterFolder f \<and> subChapterMatch (name f) \<noteq> None)"
  by (auto simp: filesRead_def split: option.splits)

lemma filesRead_subset: "set (filesRead files) \<subseteq> set files"
  by (auto simp: frontmatterFile_def backmatterFile_def dest!: filesRead_cases find_in_set)

lemma chapterLoop_groupFiles_isl:
  "isl (chapterLoop lc (groupFiles files) u added) \<longleftrightarrow>
     (\<exists>f \<in> set files. inChapterFolder f \<and> readRejected f)"
  unfolding chapterLoop_isl by (rule groups_rejected)

lemma handleBulkUpload_isl:
  "isl (handleBulkUpload lc files u) \<longleftrightarrow> (\<exists>f \<in> set (filesRead files). isl (file_text f))"
proof (cases "matterStep Frontmatter ''Kata Pengantar'' (frontmatterFile files) u []")
  case (Inl x)
  then have "isl (matterStep Frontmatter ''Kata Pengantar'' (frontmatterFile files) u [])"
    by simp
  then obtain f where "frontmatterFile files = Some f" "isl (file_text f)"
    unfolding matterStep_isl by blast
  then have "\<exists>f \<in> set (filesRead files). isl (file_text f)"
    using frontmatterFile_read by blast
  then show ?thesis
    unfolding handleBulkUpload_steps using Inl by simp
next
  case (Inr p1)
  obtain added1 u1 where p1: "p1 = (added1, u1)" by (cases p1)
  from Inr have "\<not> isl (matterStep Frontmatter ''Kata Pengantar'' (frontmatterFile files) u [])"
    by simp
  then have front: "\<And>f. frontmatterFile files = Some f \<Longrightarrow> \<not> isl (file_text f)"
    unfolding matterStep_isl by blast
  show ?thesis
  proof (cases "chapterLoop lc (groupFiles files) u1 added1")
    case (Inl x)
    then have "isl (chapterLoop lc (groupFiles files) u1 added1)" by simp
    then obtain f where "f \<in> set files" "inChapterFolder f" "readRejected f"
      unfolding chapterLoop_groupFiles_isl by blast
    then have "f \<in> set (filesRead files)" "isl (file_text f)"
      by (simp_all add: folder_read readRejected_def)
    then have "\<exists>f \<in> set (filesRead files). isl (file_text f)" by blast
    then show ?thesis
      unfolding handleBulkUpload_steps using Inr p1 Inl by simp
  next
    case loop: (Inr p2)
    obtain added2 u2 where p2: "p2 = (added2, u2)" by (cases p2)
    from loop have "\<not> isl (chapterLoop lc (groupFiles files) u1 added1)" by simp
    then have folders: "\<And>f. f \<in> set files \<Longrightarrow> inChapterFolder f \<Longrightarrow>
        subChapterMatch (name f) \<noteq> None \<Longrightarrow> \<not> isl (file_text f)"
      unfolding chapterLoop_groupFiles_isl readRejected_def by blast
    have "isl (handleBulkUpload lc files u)
            \<longleftrightarrow> isl (matterStep Backmatter ''Penutup'' (backmatterFile files) u2 added2)"
      unfolding handleBulkUpload_steps using Inr p1 loop p2
      by (simp split: sum.splits prod.splits)
    also have "\<dots> \<longleftrightarrow> (\<exists>f. backmatterFile files = Some f \<and> isl (file_text f))"
      by (rule matterStep_isl)
    also have "\<dots> \<longleftrightarrow> (\<exists>f \<in> set (filesRead files). isl (file_text f))"
      using front folders backmatterFile_read filesRead_cases by blast
    finally show ?thesis .
  qed
qed


lemma chapterLoop_groupFiles_new:
  "\<exists>new. loopAdded (chapterLoop lc (groupFiles files) u added) = added @ new
     \<and> (\<forall>c \<in> set new. chapter_type c = Chapter \<and> content c = [] \<and> subChapters c \<noteq> []
           \<and> (\<forall>s \<in> set (subChapters c). fromFiles files s))"
proof -
  from chapterLoop_new [of lc "groupFiles files" u added] obtain new where
    "loopAdded (chapterLoop lc (groupFiles files) u added) = added @ new"
    "\<forall>c \<in> set new. chapter_type c = Chapter \<and> content c = [] \<and> subChapters c \<noteq> []
       \<and> (\<forall>s \<in> set (subChapters c). fromFiles (concat (map snd (groupFiles files))) s)"
    by blast
  then show ?thesis
    using fromFiles_mono [OF groupFiles_files] by blast
qed

lemma handleBulkUpload_Inr:
  assumes "handleBulkUpload lc files u = Inr cs"
  shows "\<exists>u2 new.
     cs = map (matterChapter Frontmatter ''Kata Pengantar'' u) (matterTexts (frontmatterFile files))
          @ new
          @ map (matterChapter Backmatter ''Penutup'' u2) (matterTexts (backmatterFile files))
     \<and> map chapterPair new = List.map_filter (groupRequest lc) (groupFiles files)
     \<and> (\<forall>c \<in> set new. chapter_type c = Chapter \<and> content c = [] \<and> subChapters c \<noteq> []
           \<and> (\<forall>s \<in> set (subChapters c). fromFiles files s))"
proof (cases "matterStep Frontmatter ''Kata Pengantar'' (frontmatterFile files) u []")
  case (Inl x)
  with assms show ?thesis unfolding handleBulkUpload_steps by simp
next
  case (Inr p1)
  obtain added1 u1 where p1: "p1 = (added1, u1)" by (cases p1)
  from matterStep_Inr [OF Inr [unfolded p1]]
  have a1: "added1 = map (matterChapter Frontmatter ''Kata Pengantar'' u)
                      (matterTexts (frontmatterFile files))"
    by simp
  show ?thesis
  proof (cases "chapterLoop lc (groupFiles files) u1 added1")
    case (Inl x)
    with assms Inr p1 show ?thesis unfolding handleBulkUpload_steps by simp
  next
    case loop: (Inr p2)
    obtain added2 u2 where p2: "p2 = (added2, u2)" by (cases p2)
    from chapterLoop_Inr [OF loop [unfolded p2]] obtain new where
      a2: "added2 = added1 @ new"
      and pairs: "map chapterPair new = List.map_filter (groupRequest lc) (groupFiles files)"
      by blast
    from chapterLoop_groupFiles_new [of lc files u1 added1] loop p2 a2
    have props: "\<forall>c \<in> set new. chapter_type c = Chapter \<and> content c = [] \<and> subChapters c \<noteq> []
           \<and> (\<forall>s \<in> set (subChapters c). fromFiles files s)"
      by (simp add: loopAdded_def)
    show ?thesis
    proof (cases "matterStep Backmatter ''Penutup'' (backmatterFile files) u2 added2")
      case (Inl x)
      with assms Inr p1 loop p2 show ?thesis unfolding handleBulkUpload_steps by simp
    next
      case bstep: (Inr p3)
      obtain added3 u3 where p3: "p3 = (added3, u3)" by (cases p3)
      from matterStep_Inr [OF bstep [unfolded p3]]
      have a3: "added3 = added2 @ map (matterChapter Backmatter ''Penutup'' u2)
                                   (matterTexts (backmatterFile files))"
        by simp
      from assms Inr p1 loop p2 bstep p3 have "cs = added3"
        unfolding handleBulkUpload_steps by simp
      with a1 a2 a3 pairs props show ?thesis by auto
    qed
  qed
qed

lemma handleBulkUpload_added:
  "\<exists>u2 fr new bk.
     added_chapters (handleBulkUpload lc files u)
       = map (matterChapter Frontmatter ''Kata Pengantar'' u) fr @ new
         @ map (matterChapter Backmatter ''Penutup'' u2) bk
     \<and> (fr = [] \<or> fr = matterTexts (frontmatterFile files))
     \<and> (bk = [] \<or> bk = matterTexts (backmatterFile files))
     \<and> (\<forall>c \<in> set new. chapter_type c = Chapter \<and> content c = [] \<and> subChapters c \<noteq> []
           \<and> (\<forall>s \<in> set (subChapters c). fromFiles files s))"
proof (cases "matterStep Frontmatter ''Kata Pengantar'' (frontmatterFile files) u []")
  case (Inl x)
  obtain e cs where x: "x = (e, cs)" by (cases x)
  from matterStep_Inl [OF Inl [unfolded x]] have "cs = []" by simp
  with Inl x have "added_chapters (handleBulkUpload lc files u) = []"
    unfolding handleBulkUpload_steps by (simp add: added_chapters_def)
  then show ?thesis by simp
next
  case (Inr p1)
  obtain added1 u1 where p1: "p1 = (added1, u1)" by (cases p1)
  from matterStep_Inr [OF Inr [unfolded p1]]
  have a1: "added1 = map (matterChapter Frontmatter ''Kata Pengantar'' u)
                      (matterTexts (frontmatterFile files))"
    by simp
  from chapterLoop_groupFiles_new [of lc files u1 added1] obtain new where
    a2: "loopAdded (chapterLoop lc (groupFiles files) u1 added1) = added1 @ new"
    and props: "\<forall>c \<in> set new. chapter_type c = Chapter \<and> content c = [] \<and> subChapters c \<noteq> []
           \<and> (\<forall>s \<in> set (subChapters c). fromFiles files s)"
    by blast
  show ?thesis
  proof (cases "chapterLoop lc (groupFiles files) u1 added1")
    case (Inl x)
    obtain e cs where x: "x = (e, cs)" by (cases x)
    from Inr p1 Inl x a2
    have "added_chapters (handleBulkUpload lc files u) = added1 @ new"
      unfolding handleBulkUpload_steps by (simp add: added_chapters_def loopAdded_def)
    with a1 props show ?thesis
      by (intro exI [of _ 0] exI [of _ "matterTexts (frontmatterFile files)"] exI [of _ new]
          exI [of _ "[]"]) simp
  next
    case loop: (Inr p2)
    obtain added2 u2 where p2: "p2 = (added2, u2)" by (cases p2)
    from loop p2 a2 have a2': "added2 = added1 @ new" by (simp add: loopAdded_def)
    show ?thesis
    proof (cases "matterStep Backmatter ''Penutup'' (backmatterFile files) u2 added2")
      case (Inl x)
      obtain e cs where x: "x = (e, cs)" by (cases x)
      from matterStep_Inl [OF Inl [unfolded x]] have "cs = added2" by simp
      with Inr p1 loop p2 Inl x a2'
      have "added_chapters (handleBulkUpload lc files u) = added1 @ new"
        unfolding handleBulkUpload_steps by (simp add: added_chapters_def)
      with a1 props show ?thesis
        by (intro exI [of _ 0] exI [of _ "matterTexts (frontmatterFile files)"] exI [of _ new]
            exI [of _ "[]"]) simp
    next
      case bstep: (Inr p3)
      obtain added3 u3 where p3: "p3 = (added3, u3)" by (cases p3)
      from matterStep_Inr [OF bstep [unfolded p3]]
      have a3: "added3 = added2 @ map (matterChapter Backmatter ''Penutup'' u2)
                                   (matterTexts (backmatterFile files))"
        by simp
      from Inr p1 loop p2 bstep p3
      have "added_chapters (handleBulkUpload lc files u) = added3"
        unfolding handleBulkUpload_steps by (simp add: added_chapters_def)
      with a1 a2' a3 props show ?thesis
        by (intro exI [of _ u2] exI [of _ "matterTexts (frontmatterFile files)"] exI [of _ new]
            exI [of _ "matterTexts (backmatterFile files)"]) simp
    qed
  qed
qed

section \<open>The three segments of a completed upload\<close>

lemma matterChapter_type: "chapter_type (matterChapter ty t u c) = ty"
  by (simp add: matterChapter_def)

lemma filter_segments:
  assumes "\<forall>c \<in> set A. chapter_type c = Frontmatter"
    and "\<forall>c \<in> set B. chapter_type c = Chapter"
    and "\<forall>c \<in> set C. chapter_type c = Backmatter"
  shows "frontmatterChapters (A @ B @ C) = A" "mainChapters (A @ B @ C) = B"
    "backmatterChapters (A @ B @ C) = C"
  using assms
  by (simp_all add: frontmatterChapters_def mainChapters_def backmatterChapters_def
      filter_id_conv filter_empty_conv)

lemma handleBulkUpload_segments:
  assumes "handleBulkUpload lc files u = Inr cs"
  shows "cs = frontmatterChapters cs @ mainChapters cs @ backmatterChapters cs"
    and "frontmatterChapters cs
           = map (matterChapter Frontmatter ''Kata Pengantar'' u) (matterTexts (frontmatterFile files))"
    and "\<exists>u2. backmatterChapters cs
           = map (matterChapter Backmatter ''Penutup'' u2) (matterTexts (backmatterFile files))"
    and "map chapterPair (mainChapters cs) = List.map_filter (groupRequest lc) (groupFiles files)"
proof -
  from handleBulkUpload_Inr [OF assms] obtain u2 new where
    cs: "cs = map (matterChapter Frontmatter ''Kata Pengantar'' u) (matterTexts (frontmatterFile files))
          @ new
          @ map (matterChapter Backmatter ''Penutup'' u2) (matterTexts (backmatterFile files))"
    and pairs: "map chapterPair new = List.map_filter (groupRequest lc) (groupFiles files)"
    and props: "\<forall>c \<in> set new. chapter_type c = Chapter \<and> content c = [] \<and> subChapters c \<noteq> []
           \<and> (\<forall>s \<in> set (subChapters c). fromFiles files s)"
    by blast
  let ?A = "map (matterChapter Frontmatter ''Kata Pengantar'' u) (matterTexts (frontmatterFile files))"
  let ?C = "map (matterChapter Backmatter ''Penutup'' u2) (matterTexts (backmatterFile files))"
  have A: "\<forall>c \<in> set ?A. chapter_type c = Frontmatter" by (auto simp: matterChapter_type)
  have C: "\<forall>c \<in> set ?C. chapter_type c = Backmatter" by (auto simp: matterChapter_type)
  have B: "\<forall>c \<in> set new. chapter_type c = Chapter" using props by blast
  note seg = filter_segments [OF A B C]
  show "cs = frontmatterChapters cs @ mainChapters cs @ backmatterChapters cs"
    unfolding cs seg ..
  show "frontmatterChapters cs = ?A" unfolding cs seg ..
  show "\<exists>u2. backmatterChapters cs
           = map (matterChapter Backmatter ''Penutup'' u2) (matterTexts (backmatterFile files))"
    unfolding cs seg by blast
  show "map chapterPair (mainChapters cs) = List.map_filter (groupRequest lc) (groupFiles files)"
    unfolding cs seg by (rule pairs)
qed

lemma map_filter_eq_Nil: "List.map_filter g xs = [] \<longleftrightarrow> (\<forall>x \<in> set xs. g x = None)"
  by (auto simp: List.map_filter_def filter_empty_conv)

lemma groupRequest_valid:
  assumes "\<forall>f \<in> set fs. subChapterMatch (name f) \<noteq> None \<longrightarrow> \<not> isl (file_text f)"
  shows "groupRequest lc (k, fs) \<noteq> None \<longleftrightarrow>
           chapterMatch k \<noteq> None \<and> (\<exists>f \<in> set fs. subChapterMatch (name f) \<noteq> None)"
proof (cases "chapterMatch k")
  case None
  then show ?thesis by (simp add: groupRequest_unmatched)
next
  case (Some p)
  obtain num t where p: "p = (num, t)" by (cases p)
  have "\<And>f. f \<in> set fs \<Longrightarrow> (subRequest f = None) = (subChapterMatch (name f) = None)"
    using assms by (auto simp: subRequest_def split: option.splits sum.splits)
  then have "(List.map_filter subRequest (sortFiles lc fs) = [])
               = (\<forall>f \<in> set fs. subChapterMatch (name f) = None)"
    by (simp add: map_filter_eq_Nil set_sortFiles)
  then show ?thesis
    using Some p by (auto simp: groupRequest_matched)
qed

lemma groupRequest_title: "groupRequest lc (k, fs) = Some r \<Longrightarrow> fst r = folderTitle k"
  by (auto simp: groupRequest_def folderTitle_def split: option.splits list.splits)

lemma map_filter_as_filter:
  assumes "\<And>x. x \<in> set xs \<Longrightarrow> (g x \<noteq> None) = P x"
    and "\<And>x y. x \<in> set xs \<Longrightarrow> g x = Some y \<Longrightarrow> h y = t x"
  shows "map h (List.map_filter g xs) = map t (filter P xs)"
  using assms
proof (induction xs)
  case Nil
  then show ?case by (simp add: List.map_filter_simps)
next
  case (Cons x xs)
  then have IH: "map h (List.map_filter g xs) = map t (filter P xs)" by simp
  show ?case
  proof (cases "g x")
    case None
    with Cons.prems(1) [of x] have "\<not> P x" by simp
    with None IH show ?thesis by (simp add: List.map_filter_simps)
  next
    case (Some y)
    with Cons.prems(1) [of x] have "P x" by simp
    moreover from Some Cons.prems(2) [of x y] have "h y = t x" by simp
    ultimately show ?thesis using Some IH by (simp add: List.map_filter_simps)
  qed
qed

lemma handleBulkUpload_titles:
  assumes "handleBulkUpload lc files u = Inr cs"
  shows "map title (mainChapters cs) = map folderTitle (filter (validFolder files) (foldersInOrder files))"
proof -
  from assms have "\<not> isl (handleBulkUpload lc files u)" by simp
  then have reads: "\<And>f. f \<in> set (filesRead files) \<Longrightarrow> \<not> isl (file_text f)"
    unfolding handleBulkUpload_isl by blast
  have valid: "(groupRequest lc g \<noteq> None) = validFolder files (fst g)"
    if "g \<in> set (groupFiles files)" for g
  proof -
    from that obtain k where g: "g = (k, filesOf files k)"
      unfolding groupFiles_member by blast
    show ?thesis
    proof (cases "chapterMatch k")
      case None
      then show ?thesis by (simp add: g groupRequest_unmatched validFolder_def)
    next
      case (Some p)
      have "\<not> isl (file_text f)"
        if "f \<in> set (filesOf files k)" "subChapterMatch (name f) \<noteq> None" for f
      proof -
        from that(1) Some have "f \<in> set files" "inChapterFolder f"
          by (simp_all add: set_filesOf inChapterFolder_def)
        with that(2) have "f \<in> set (filesRead files)" by (simp add: folder_read)
        then show ?thesis by (rule reads)
      qed
      then have "\<forall>f \<in> set (filesOf files k). subChapterMatch (name f) \<noteq> None
                   \<longrightarrow> \<not> isl (file_text f)"
        by blast
      from groupRequest_valid [OF this] show ?thesis
        by (simp add: g validFolder_def)
    qed
  qed
  have "map title (mainChapters cs) = map fst (map chapterPair (mainChapters cs))"
    by (simp add: chapterPair_def comp_def)
  also have "\<dots> = map fst (List.map_filter (groupRequest lc) (groupFiles files))"
    by (simp only: handleBulkUpload_segments(4) [OF assms])
  also have "\<dots> = map (folderTitle \<circ> fst) (filter (\<lambda>g. validFolder files (fst g)) (groupFiles files))"
  proof (rule map_filter_as_filter)
    fix g assume "g \<in> set (groupFiles files)"
    then show "(groupRequest lc g \<noteq> None) = validFolder files (fst g)" by (rule valid)
  next
    fix g r assume "g \<in> set (groupFiles files)" "groupRequest lc g = Some r"
    then show "fst r = (folderTitle \<circ> fst) g"
      using groupRequest_title [of lc "fst g" "snd g" r] by simp
  qed
  also have "\<dots> = map folderTitle (filter (validFolder files) (foldersInOrder files))"
    by (simp add: groupFiles_eq filter_map comp_def)
  finally show ?thesis .
qed

section \<open>The titles of front matter and back matter\<close>

lemma split_root_Kata:
  "split CHR ''/'' ''Buku/KATA PENGANTAR edisi 2.txt'' = [''Buku'', ''KATA PENGANTAR edisi 2.txt'']"
  by code_simp

lemma split_root_Penutup:
  "split CHR ''/'' ''Buku/catatan penutup.txt'' = [''Buku'', ''catatan penutup.txt'']"
  by code_simp

lemma markers_root_Kata:
  "frontmatterName ''KATA PENGANTAR edisi 2.txt''" "\<not> backmatterName ''KATA PENGANTAR edisi 2.txt''"
  "chapterMatch ''KATA PENGANTAR edisi 2.txt'' = None"
  by code_simp+

lemma markers_root_Penutup:
  "\<not> frontmatterName ''catatan penutup.txt''" "backmatterName ''catatan penutup.txt''"
  "chapterMatch ''catatan penutup.txt'' = None"
  by code_simp+

text \<open>
  C9.  For every batch, every front-matter chapter that the upload hands over is titled
  \<open>Kata Pengantar\<close> and every back-matter chapter is titled \<open>Penutup\<close>, whatever the
  name of the file that was found: the title is a constant of the handler and is never
  taken from the file name.  This holds for the chapters handed over before a rejected
  read as well.
\<close>

theorem C9_fixed_titles:
  "\<forall>c \<in> set (added_chapters (handleBulkUpload lc files u)).
     (chapter_type c = Frontmatter \<longrightarrow> title c = ''Kata Pengantar'')
     \<and> (chapter_type c = Backmatter \<longrightarrow> title c = ''Penutup'')"
proof -
  from handleBulkUpload_added [of lc files u] obtain u2 fr new bk where
    eq: "added_chapters (handleBulkUpload lc files u)
       = map (matterChapter Frontmatter ''Kata Pengantar'' u) fr @ new
         @ map (matterChapter Backmatter ''Penutup'' u2) bk"
    and new: "\<forall>c \<in> set new. chapter_type c = Chapter \<and> content c = [] \<and> subChapters c \<noteq> []
           \<and> (\<forall>s \<in> set (subChapters c). fromFiles files s)"
    by blast
  show ?thesis
    unfolding eq using new by (auto simp: matterChapter_def)
qed

theorem C9_fixed_titles_witness:
  "map (\<lambda>c. (chapter_type c, title c, content c))
     (added_chapters (handleBulkUpload (\<lambda>a b. 0)
        [\<lparr>name = ''KATA PENGANTAR edisi 2.txt'',
          webkitRelativePath = ''Buku/KATA PENGANTAR edisi 2.txt'',
          file_text = Inr ''Salam'' :: string + string\<rparr>,
         \<lparr>name = ''catatan penutup.txt'',
          webkitRelativePath = ''Buku/catatan penutup.txt'',
          file_text = Inr ''Sekian''\<rparr>] 0))
   = [(Frontmatter, ''Kata Pengantar'', ''Salam''), (Backmatter, ''Penutup'', ''Sekian'')]"
  using C9_fixed_titles [of "\<lambda>a b. 0"
        "[\<lparr>name = ''KATA PENGANTAR edisi 2.txt'',
          webkitRelativePath = ''Buku/KATA PENGANTAR edisi 2.txt'',
          file_text = Inr ''Salam'' :: string + string\<rparr>,
         \<lparr>name = ''catatan penutup.txt'',
          webkitRelativePath = ''Buku/catatan penutup.txt'',
          file_text = Inr ''Sekian''\<rparr>]" 0]
  by (simp add: handler_defs added_chapters_def split_root_Kata split_root_Penutup
      markers_root_Kata markers_root_Penutup)

section \<open>Dropped folders and the order of the chapters\<close>

lemma names_BAB2:
  "chapterMatch ''BAB 2 - X'' = Some (''2'', ''X'')" "subChapterMatch ''catatan.md'' = None"
  "\<not> frontmatterName ''catatan.md''" "\<not> backmatterName ''catatan.md''"
  "split CHR ''/'' ''Buku/BAB 2 - X/catatan.md'' = [''Buku'', ''BAB 2 - X'', ''catatan.md'']"
  by code_simp+

text \<open>
  C5, as stated, fails: the handler returns no skip count.  The folder \<open>BAB 2 - X\<close>
  matches the chapter pattern and its only file matches no sub-chapter pattern; the
  outcome of the upload is the empty sequence of \<open>addChapter\<close> calls and nothing else,
  the same as for the empty batch.
\<close>

theorem C5_no_skip_count_counterexample:
  "chapterMatch ''BAB 2 - X'' = Some (''2'', ''X'')
   \<and> subChapterMatch ''catatan.md'' = None
   \<and> handleBulkUpload codeUnitCompare
        [\<lparr>name = ''catatan.md'', webkitRelativePath = ''Buku/BAB 2 - X/catatan.md'',
          file_text = Inr ''Catatan'' :: string + string\<rparr>] 0
      = Inr []
   \<and> handleBulkUpload codeUnitCompare ([] :: string File list) 0 = Inr []"
  by (simp add: handler_defs names_BAB2)

lemma subChapterLoop_no_match:
  "\<forall>f \<in> set fs. subChapterMatch (name f) = None \<Longrightarrow> subChapterLoop fs u subs = Inr (subs, u)"
  by (induction fs) simp_all

text \<open>
  C5, amended.  The upload returns no skip count.  A folder that matches the chapter
  pattern and has no file matching the sub-chapter pattern produces no chapter: the loop
  goes on to the next folder with the calls made so far (one identifier is used up).
  Every chapter of type \<open>chapter\<close> that the upload hands over has at least one
  sub-chapter, and a completed upload hands over as many such chapters as there are
  matching folders with a matching file.
\<close>

theorem C5_empty_group_dropped:
  "(\<forall>num t. chapterMatch k = Some (num, t) \<and> (\<forall>f \<in> set fs. subChapterMatch (name f) = None)
      \<longrightarrow> chapterLoop lc ((k, fs) # rest) u added = chapterLoop lc rest (u + 1) added)
   \<and> (\<forall>c \<in> set (added_chapters (handleBulkUpload lc files u)).
         chapter_type c = Chapter \<longrightarrow> subChapters c \<noteq> [])
   \<and> (\<forall>cs. handleBulkUpload lc files u = Inr cs \<longrightarrow>
         length (mainChapters cs) = length (filter (validFolder files) (foldersInOrder files)))"
proof (intro conjI allI impI ballI)
  fix num t
  assume h: "chapterMatch k = Some (num, t) \<and> (\<forall>f \<in> set fs. subChapterMatch (name f) = None)"
  then have "subChapterLoop (sortFiles lc fs) (u + 1) [] = Inr ([], u + 1)"
    by (intro subChapterLoop_no_match) (simp add: set_sortFiles)
  with h show "chapterLoop lc ((k, fs) # rest) u added = chapterLoop lc rest (u + 1) added"
    by simp
next
  fix c
  assume c: "c \<in> set (added_chapters (handleBulkUpload lc files u))" "chapter_type c = Chapter"
  from handleBulkUpload_added [of lc files u] obtain u2 fr new bk where
    eq: "added_chapters (handleBulkUpload lc files u)
       = map (matterChapter Frontmatter ''Kata Pengantar'' u) fr @ new
         @ map (matterChapter Backmatter ''Penutup'' u2) bk"
    and new: "\<forall>c \<in> set new. chapter_type c = Chapter \<and> content c = [] \<and> subChapters c \<noteq> []
           \<and> (\<forall>s \<in> set (subChapters c). fromFiles files s)"
    by blast
  from c have "c \<in> set new"
    unfolding eq by (auto simp: matterChapter_def)
  with new show "subChapters c \<noteq> []" by blast
next
  fix cs
  assume "handleBulkUpload lc files u = Inr cs"
  from handleBulkUpload_titles [OF this]
  have "length (map title (mainChapters cs))
          = length (map folderTitle (filter (validFolder files) (foldersInOrder files)))"
    by simp
  then show "length (mainChapters cs) = length (filter (validFolder files) (foldersInOrder files))"
    by simp
qed

lemma names_BAB3:
  "chapterMatch ''BAB 3 - Awal'' = Some (''3'', ''Awal'')"
  "subChapterMatch ''3.1 Pembuka.txt'' = Some (''3.1'', ''Pembuka'')"
  "subChapterMatch ''3.2 Lanjutan.txt'' = Some (''3.2'', ''Lanjutan'')"
  "\<not> frontmatterName ''3.1 Pembuka.txt''" "\<not> backmatterName ''3.1 Pembuka.txt''"
  "\<not> frontmatterName ''3.2 Lanjutan.txt''" "\<not> backmatterName ''3.2 Lanjutan.txt''"
  "split CHR ''/'' ''Buku/BAB 3 - Awal/3.1 Pembuka.txt''
     = [''Buku'', ''BAB 3 - Awal'', ''3.1 Pembuka.txt'']"
  "split CHR ''/'' ''Buku/BAB 3 - Awal/3.2 Lanjutan.txt''
     = [''Buku'', ''BAB 3 - Awal'', ''3.2 Lanjutan.txt'']"
  by code_simp+

lemmas describe_defs = foldersInOrder_def firsts_def filesOf_def validFolder_def folderTitle_def
  List.map_filter_simps mainChapters_def frontmatterChapters_def backmatterChapters_def

theorem C5_empty_group_dropped_witness:
  "chapterMatch ''BAB 2 - X'' = Some (''2'', ''X'')
   \<and> subChapterMatch ''catatan.md'' = None
   \<and> chapterLoop codeUnitCompare
        [(''BAB 2 - X'', [textFile ''catatan.md'' ''Buku/BAB 2 - X/catatan.md'' ''Catatan'']),
         (''BAB 3 - Awal'',
          [textFile ''3.1 Pembuka.txt'' ''Buku/BAB 3 - Awal/3.1 Pembuka.txt'' ''Mula''])] 0 []
      = chapterLoop codeUnitCompare
        [(''BAB 3 - Awal'',
          [textFile ''3.1 Pembuka.txt'' ''Buku/BAB 3 - Awal/3.1 Pembuka.txt'' ''Mula''])] 1 []
   \<and> handleBulkUpload codeUnitCompare
        [textFile ''catatan.md'' ''Buku/BAB 2 - X/catatan.md'' ''Catatan'',
         textFile ''3.1 Pembuka.txt'' ''Buku/BAB 3 - Awal/3.1 Pembuka.txt'' ''Mula''] 0
      = Inr [\<lparr>chapter_id = 1, title = ''Awal'', content = [], images = [],
               chapter_type = Chapter, indentation = 0, lineSpacing = 3 / 2,
               subChapters = [\<lparr>sub_id = 2, sub_title = ''Pembuka'', sub_content = ''Mula''\<rparr>],
               pageNumber = None\<rparr>]
   \<and> filter (validFolder
        [textFile ''catatan.md'' ''Buku/BAB 2 - X/catatan.md'' ''Catatan'',
         textFile ''3.1 Pembuka.txt'' ''Buku/BAB 3 - Awal/3.1 Pembuka.txt'' ''Mula''])
       (foldersInOrder
        [textFile ''catatan.md'' ''Buku/BAB 2 - X/catatan.md'' ''Catatan'',
         textFile ''3.1 Pembuka.txt'' ''Buku/BAB 3 - Awal/3.1 Pembuka.txt'' ''Mula''])
      = [''BAB 3 - Awal'']"
  using C5_empty_group_dropped [where k = "''BAB 2 - X''"
      and fs = "[textFile ''catatan.md'' ''Buku/BAB 2 - X/catatan.md'' ''Catatan'']"
      and lc = codeUnitCompare
      and rest = "[(''BAB 3 - Awal'',
          [textFile ''3.1 Pembuka.txt'' ''Buku/BAB 3 - Awal/3.1 Pembuka.txt'' ''Mula''])]"
      and u = 0 and added = "[]"
      and files = "[textFile ''catatan.md'' ''Buku/BAB 2 - X/catatan.md'' ''Catatan'',
         textFile ''3.1 Pembuka.txt'' ''Buku/BAB 3 - Awal/3.1 Pembuka.txt'' ''Mula'']"]
  by (simp add: handler_defs describe_defs textFile_def names_BAB2 names_BAB3)

lemma names_Dua_Satu:
  "chapterMatch ''BAB 2 - Dua'' = Some (''2'', ''Dua'')"
  "chapterMatch ''BAB 1 - Satu'' = Some (''1'', ''Satu'')"
  "parseInt ''2'' = 2" "parseInt ''1'' = 1"
  "subChapterMatch ''2.1 Isi.txt'' = Some (''2.1'', ''Isi'')"
  "subChapterMatch ''1.1 Isi.txt'' = Some (''1.1'', ''Isi'')"
  "\<not> frontmatterName ''2.1 Isi.txt''" "\<not> backmatterName ''2.1 Isi.txt''"
  "\<not> frontmatterName ''1.1 Isi.txt''" "\<not> backmatterName ''1.1 Isi.txt''"
  "split CHR ''/'' ''Buku/BAB 2 - Dua/2.1 Isi.txt'' = [''Buku'', ''BAB 2 - Dua'', ''2.1 Isi.txt'']"
  "split CHR ''/'' ''Buku/BAB 1 - Satu/1.1 Isi.txt'' = [''Buku'', ''BAB 1 - Satu'', ''1.1 Isi.txt'']"
  by code_simp+

lemma names_root_Pengantar:
  "frontmatterName ''Kata Pengantar.txt''" "\<not> backmatterName ''Kata Pengantar.txt''"
  "chapterMatch ''Kata Pengantar.txt'' = None"
  "subChapterMatch ''Kata Pengantar.txt'' = None"
  "split CHR ''/'' ''Buku/Kata Pengantar.txt'' = [''Buku'', ''Kata Pengantar.txt'']"
  by code_simp+

text \<open>
  C1, as stated, fails: the folders are not processed in ascending order of their parsed
  number.  With the folder \<open>BAB 2 - Dua\<close> first in the batch and \<open>BAB 1 - Satu\<close> second,
  the chapter \<open>Dua\<close> (number 2) is handed over before the chapter \<open>Satu\<close> (number 1).
\<close>

theorem C1_encounter_order_counterexample:
  "chapterMatch ''BAB 2 - Dua'' = Some (''2'', ''Dua'') \<and> parseInt ''2'' = 2
   \<and> chapterMatch ''BAB 1 - Satu'' = Some (''1'', ''Satu'') \<and> parseInt ''1'' = 1
   \<and> handleBulkUpload codeUnitCompare
        [textFile ''2.1 Isi.txt'' ''Buku/BAB 2 - Dua/2.1 Isi.txt'' ''dua'',
         textFile ''1.1 Isi.txt'' ''Buku/BAB 1 - Satu/1.1 Isi.txt'' ''satu''] 0
      = Inr [\<lparr>chapter_id = 0, title = ''Dua'', content = [], images = [],
               chapter_type = Chapter, indentation = 0, lineSpacing = 3 / 2,
               subChapters = [\<lparr>sub_id = 1, sub_title = ''Isi'', sub_content = ''dua''\<rparr>],
               pageNumber = None\<rparr>,
             \<lparr>chapter_id = 2, title = ''Satu'', content = [], images = [],
               chapter_type = Chapter, indentation = 0, lineSpacing = 3 / 2,
               subChapters = [\<lparr>sub_id = 3, sub_title = ''Isi'', sub_content = ''satu''\<rparr>],
               pageNumber = None\<rparr>]"
  by (simp add: handler_defs textFile_def names_Dua_Satu)

text \<open>
  C1, amended.  For every batch on which the upload completes, the chapters handed over
  are ordered: the front-matter chapter (at most one) first, then the chapters of the
  valid folders in the order in which the folders are first met in the batch, then the
  back-matter chapter (at most one) last.  The parsed number plays no part.
\<close>

theorem C1_encounter_order:
  assumes "handleBulkUpload lc files u = Inr cs"
  shows "cs = frontmatterChapters cs @ mainChapters cs @ backmatterChapters cs
    \<and> length (frontmatterChapters cs) \<le> 1
    \<and> length (backmatterChapters cs) \<le> 1
    \<and> map title (mainChapters cs)
        = map folderTitle (filter (validFolder files) (foldersInOrder files))"
proof -
  note seg = handleBulkUpload_segments [OF assms]
  from seg(3) obtain u2 where
    bk: "backmatterChapters cs
           = map (matterChapter Backmatter ''Penutup'' u2) (matterTexts (backmatterFile files))"
    by blast
  have "length (frontmatterChapters cs) \<le> 1"
    unfolding seg(2) using matterTexts_length [of "frontmatterFile files"] by simp
  moreover have "length (backmatterChapters cs) \<le> 1"
    unfolding bk using matterTexts_length [of "backmatterFile files"] by simp
  ultimately show ?thesis
    using seg(1) handleBulkUpload_titles [OF assms] by simp
qed

theorem C1_encounter_order_witness:
  "handleBulkUpload codeUnitCompare
        [textFile ''2.1 Isi.txt'' ''Buku/BAB 2 - Dua/2.1 Isi.txt'' ''dua'',
         textFile ''1.1 Isi.txt'' ''Buku/BAB 1 - Satu/1.1 Isi.txt'' ''satu'',
         textFile ''Kata Pengantar.txt'' ''Buku/Kata Pengantar.txt'' ''salam''] 0
      = Inr [\<lparr>chapter_id = 0, title = ''Kata Pengantar'', content = ''salam'', images = [],
               chapter_type = Frontmatter, indentation = 0, lineSpacing = 3 / 2,
               subChapters = [], pageNumber = None\<rparr>,
             \<lparr>chapter_id = 1, title = ''Dua'', content = [], images = [],
               chapter_type = Chapter, indentation = 0, lineSpacing = 3 / 2,
               subChapters = [\<lparr>sub_id = 2, sub_title = ''Isi'', sub_content = ''dua''\<rparr>],
               pageNumber = None\<rparr>,
             \<lparr>chapter_id = 3, title = ''Satu'', content = [], images = [],
               chapter_type = Chapter, indentation = 0, lineSpacing = 3 / 2,
               subChapters = [\<lparr>sub_id = 4, sub_title = ''Isi'', sub_content = ''satu''\<rparr>],
               pageNumber = None\<rparr>]
   \<and> map folderTitle
        (filter (validFolder
           [textFile ''2.1 Isi.txt'' ''Buku/BAB 2 - Dua/2.1 Isi.txt'' ''dua'',
            textFile ''1.1 Isi.txt'' ''Buku/BAB 1 - Satu/1.1 Isi.txt'' ''satu'',
            textFile ''Kata Pengantar.txt'' ''Buku/Kata Pengantar.txt'' ''salam''])
          (foldersInOrder
           [textFile ''2.1 Isi.txt'' ''Buku/BAB 2 - Dua/2.1 Isi.txt'' ''dua'',
            textFile ''1.1 Isi.txt'' ''Buku/BAB 1 - Satu/1.1 Isi.txt'' ''satu'',
            textFile ''Kata Pengantar.txt'' ''Buku/Kata Pengantar.txt'' ''salam'']))
      = [''Dua'', ''Satu'']"
proof -
  have run: "handleBulkUpload codeUnitCompare
        [textFile ''2.1 Isi.txt'' ''Buku/BAB 2 - Dua/2.1 Isi.txt'' ''dua'',
         textFile ''1.1 Isi.txt'' ''Buku/BAB 1 - Satu/1.1 Isi.txt'' ''satu'',
         textFile ''Kata Pengantar.txt'' ''Buku/Kata Pengantar.txt'' ''salam''] 0
      = Inr [\<lparr>chapter_id = 0, title = ''Kata Pengantar'', content = ''salam'', images = [],
               chapter_type = Frontmatter, indentation = 0, lineSpacing = 3 / 2,
               subChapters = [], pageNumber = None\<rparr>,
             \<lparr>chapter_id = 1, title = ''Dua'', content = [], images = [],
               chapter_type = Chapter, indentation = 0, lineSpacing = 3 / 2,
               subChapters = [\<lparr>sub_id = 2, sub_title = ''Isi'', sub_content = ''dua''\<rparr>],
               pageNumber = None\<rparr>,
             \<lparr>chapter_id = 3, title = ''Satu'', content = [], images = [],
               chapter_type = Chapter, indentation = 0, lineSpacing = 3 / 2,
               subChapters = [\<lparr>sub_id = 4, sub_title = ''Isi'', sub_content = ''satu''\<rparr>],
               pageNumber = None\<rparr>]"
    by (simp add: handler_defs textFile_def names_Dua_Satu names_root_Pengantar)
  from C1_encounter_order [OF run] show ?thesis
    using run by (simp add: mainChapters_def)
qed

section \<open>A rejected read, on two paths\<close>

lemma names_both_markers:
  "frontmatterName ''Kata Pengantar dan Penutup.txt''"
  "backmatterName ''Kata Pengantar dan Penutup.txt''"
  "chapterMatch ''Kata Pengantar dan Penutup.txt'' = None"
  "split CHR ''/'' ''Buku/Kata Pengantar dan Penutup.txt''
     = [''Buku'', ''Kata Pengantar dan Penutup.txt'']"
  by code_simp+

lemma names_Penulis:
  "frontmatterName ''Kata Pengantar Penulis.txt''"
  "\<not> backmatterName ''Kata Pengantar Penulis.txt''"
  "chapterMatch ''Kata Pengantar Penulis.txt'' = None"
  "split CHR ''/'' ''Buku/Kata Pengantar Penulis.txt'' = [''Buku'', ''Kata Pengantar Penulis.txt'']"
  by code_simp+



section \<open>Sorting a folder and the order of its sub-chapters\<close>

lemma codeUnitCompare_total: "codeUnitCompare a b \<le> 0 \<or> codeUnitCompare b a \<le> 0"
  by (induction a b rule: codeUnitCompare.induct) auto

lemma codeUnitCompare_trans:
  "codeUnitCompare a b \<le> 0 \<Longrightarrow> codeUnitCompare b c \<le> 0 \<Longrightarrow> codeUnitCompare a c \<le> 0"
proof (induction a arbitrary: b c)
  case Nil
  then show ?case by (cases c) simp_all
next
  case (Cons x xs)
  show ?case
  proof (cases b)
    case Nil
    with Cons.prems show ?thesis by simp
  next
    case b: (Cons y ys)
    show ?thesis
    proof (cases c)
      case Nil
      with Cons.prems b show ?thesis by simp
    next
      case c: (Cons z zs)
      from Cons.prems b c Cons.IH [of ys zs] show ?thesis
        by (auto split: if_splits)
    qed
  qed
qed

lemma length_insertFile: "length (insertFile lc a bs) = Suc (length bs)"
  by (induction bs) auto

lemma length_sortFiles: "length (sortFiles lc fs) = length fs"
  by (induction fs) (simp_all add: sortFiles_def length_insertFile)

lemma sorted_insertFile:
  assumes total: "\<And>a b. lc a b \<le> 0 \<or> lc b a \<le> 0"
    and trans: "\<And>a b c. lc a b \<le> 0 \<Longrightarrow> lc b c \<le> 0 \<Longrightarrow> lc a c \<le> 0"
  shows "sorted_wrt (\<lambda>a b. lc (name a) (name b) \<le> 0) bs
           \<Longrightarrow> sorted_wrt (\<lambda>a b. lc (name a) (name b) \<le> 0) (insertFile lc a bs)"
proof (induction bs)
  case Nil
  then show ?case by simp
next
  case (Cons b bs)
  show ?case
  proof (cases "lc (name a) (name b) \<le> 0")
    case True
    with Cons.prems trans show ?thesis by auto
  next
    case False
    with total have "lc (name b) (name a) \<le> 0" by blast
    with False Cons show ?thesis by (auto simp: set_insertFile)
  qed
qed

lemma sorted_sortFiles:
  assumes total: "\<And>a b. lc a b \<le> 0 \<or> lc b a \<le> 0"
    and trans: "\<And>a b c. lc a b \<le> 0 \<Longrightarrow> lc b c \<le> 0 \<Longrightarrow> lc a c \<le> 0"
  shows "sorted_wrt (\<lambda>a b. lc (name a) (name b) \<le> 0) (sortFiles lc fs)"
proof (induction fs)
  case Nil
  then show ?case by (simp add: sortFiles_def)
next
  case (Cons f fs)
  then have "sorted_wrt (\<lambda>a b. lc (name a) (name b) \<le> 0) (insertFile lc f (sortFiles lc fs))"
    using total trans by (intro sorted_insertFile) blast+
  then show ?case by (simp add: sortFiles_def)
qed

lemma compare_Pembuka_Lanjutan:
  "codeUnitCompare ''3.1 Pembuka.txt'' ''3.2 Lanjutan.txt'' \<le> 0"
  "\<not> codeUnitCompare ''3.2 Lanjutan.txt'' ''3.1 Pembuka.txt'' \<le> 0"
  by code_simp+

text \<open>
  C6.  A folder \<open>BAB 3 - Awal\<close> with the files \<open>3.1 Pembuka.txt\<close> and
  \<open>3.2 Lanjutan.txt\<close>, in either order in the batch, gives exactly one chapter, titled
  \<open>Awal\<close>, with the two sub-chapters \<open>Pembuka\<close> then \<open>Lanjutan\<close> (for a collation
  that puts the first name before the second).  In general the chapters of a completed
  upload carry, folder by folder, the folder's title and, for each file of the sorted
  folder that matches the sub-chapter pattern, its captured title and its text, in the
  order of the sorted files; for a collation that is total and transitive the sorted
  files are the folder's files in ascending order of their names.
\<close>

theorem C6_sub_chapters_in_sorted_order:
  "(lc ''3.1 Pembuka.txt'' ''3.2 Lanjutan.txt'' \<le> 0
      \<and> \<not> lc ''3.2 Lanjutan.txt'' ''3.1 Pembuka.txt'' \<le> 0
    \<longrightarrow> handleBulkUpload lc
          [\<lparr>name = ''3.1 Pembuka.txt'',
            webkitRelativePath = ''Buku/BAB 3 - Awal/3.1 Pembuka.txt'', file_text = Inr p\<rparr>,
           \<lparr>name = ''3.2 Lanjutan.txt'',
            webkitRelativePath = ''Buku/BAB 3 - Awal/3.2 Lanjutan.txt'', file_text = Inr q\<rparr>] u
        = Inr [\<lparr>chapter_id = u, title = ''Awal'', content = [], images = [],
                 chapter_type = Chapter, indentation = 0, lineSpacing = 3 / 2,
                 subChapters =
                   [\<lparr>sub_id = u + 1, sub_title = ''Pembuka'', sub_content = p\<rparr>,
                    \<lparr>sub_id = u + 2, sub_title = ''Lanjutan'', sub_content = q\<rparr>],
                 pageNumber = None\<rparr>]
      \<and> handleBulkUpload lc
          [\<lparr>name = ''3.2 Lanjutan.txt'',
            webkitRelativePath = ''Buku/BAB 3 - Awal/3.2 Lanjutan.txt'', file_text = Inr q\<rparr>,
           \<lparr>name = ''3.1 Pembuka.txt'',
            webkitRelativePath = ''Buku/BAB 3 - Awal/3.1 Pembuka.txt'', file_text = Inr p\<rparr>] u
        = Inr [\<lparr>chapter_id = u, title = ''Awal'', content = [], images = [],
                 chapter_type = Chapter, indentation = 0, lineSpacing = 3 / 2,
                 subChapters =
                   [\<lparr>sub_id = u + 1, sub_title = ''Pembuka'', sub_content = p\<rparr>,
                    \<lparr>sub_id = u + 2, sub_title = ''Lanjutan'', sub_content = q\<rparr>],
                 pageNumber = None\<rparr>])
   \<and> (\<forall>cs. handleBulkUpload lc files u = Inr cs
         \<longrightarrow> map chapterPair (mainChapters cs)
               = List.map_filter (groupRequest lc) (groupFiles files))
   \<and> ((\<forall>a b. lc a b \<le> 0 \<or> lc b a \<le> 0) \<and> (\<forall>a b c. lc a b \<le> 0 \<and> lc b c \<le> 0 \<longrightarrow> lc a c \<le> 0)
        \<longrightarrow> sorted_wrt (\<lambda>a b. lc (name a) (name b) \<le> 0) (sortFiles lc fs)
            \<and> set (sortFiles lc fs) = set fs \<and> length (sortFiles lc fs) = length fs)"
proof (intro conjI allI impI)
  assume "lc ''3.1 Pembuka.txt'' ''3.2 Lanjutan.txt'' \<le> 0
      \<and> \<not> lc ''3.2 Lanjutan.txt'' ''3.1 Pembuka.txt'' \<le> 0"
  then show "handleBulkUpload lc
          [\<lparr>name = ''3.1 Pembuka.txt'',
            webkitRelativePath = ''Buku/BAB 3 - Awal/3.1 Pembuka.txt'', file_text = Inr p\<rparr>,
           \<lparr>name = ''3.2 Lanjutan.txt'',
            webkitRelativePath = ''Buku/BAB 3 - Awal/3.2 Lanjutan.txt'', file_text = Inr q\<rparr>] u
        = Inr [\<lparr>chapter_id = u, title = ''Awal'', content = [], images = [],
                 chapter_type = Chapter, indentation = 0, lineSpacing = 3 / 2,
                 subChapters =
                   [\<lparr>sub_id = u + 1, sub_title = ''Pembuka'', sub_content = p\<rparr>,
                    \<lparr>sub_id = u + 2, sub_title = ''Lanjutan'', sub_content = q\<rparr>],
                 pageNumber = None\<rparr>]"
    and "handleBulkUpload lc
          [\<lparr>name = ''3.2 Lanjutan.txt'',
            webkitRelativePath = ''Buku/BAB 3 - Awal/3.2 Lanjutan.txt'', file_text = Inr q\<rparr>,
           \<lparr>name = ''3.1 Pembuka.txt'',
            webkitRelativePath = ''Buku/BAB 3 - Awal/3.1 Pembuka.txt'', file_text = Inr p\<rparr>] u
        = Inr [\<lparr>chapter_id = u, title = ''Awal'', content = [], images = [],
                 chapter_type = Chapter, indentation = 0, lineSpacing = 3 / 2,
                 subChapters =
                   [\<lparr>sub_id = u + 1, sub_title = ''Pembuka'', sub_content = p\<rparr>,
                    \<lparr>sub_id = u + 2, sub_title = ''Lanjutan'', sub_content = q\<rparr>],
                 pageNumber = None\<rparr>]"
    by (simp_all add: handler_defs names_BAB3)
next
  fix cs
  assume "handleBulkUpload lc files u = Inr cs"
  then show "map chapterPair (mainChapters cs) = List.map_filter (groupRequest lc) (groupFiles files)"
    by (rule handleBulkUpload_segments(4))
next
  assume h: "(\<forall>a b. lc a b \<le> 0 \<or> lc b a \<le> 0) \<and> (\<forall>a b c. lc a b \<le> 0 \<and> lc b c \<le> 0 \<longrightarrow> lc a c \<le> 0)"
  then show "sorted_wrt (\<lambda>a b. lc (name a) (name b) \<le> 0) (sortFiles lc fs)"
    by (intro sorted_sortFiles) blast+
  show "set (sortFiles lc fs) = set fs" by (rule set_sortFiles)
  show "length (sortFiles lc fs) = length fs" by (rule length_sortFiles)
qed

theorem C6_sub_chapters_in_sorted_order_witness:
  "codeUnitCompare ''3.1 Pembuka.txt'' ''3.2 Lanjutan.txt'' \<le> 0
   \<and> \<not> codeUnitCompare ''3.2 Lanjutan.txt'' ''3.1 Pembuka.txt'' \<le> 0
   \<and> handleBulkUpload codeUnitCompare
        [textFile ''3.2 Lanjutan.txt'' ''Buku/BAB 3 - Awal/3.2 Lanjutan.txt'' ''lalu'',
         textFile ''3.1 Pembuka.txt'' ''Buku/BAB 3 - Awal/3.1 Pembuka.txt'' ''mula''] 0
      = Inr [\<lparr>chapter_id = 0, title = ''Awal'', content = [], images = [],
               chapter_type = Chapter, indentation = 0, lineSpacing = 3 / 2,
               subChapters =
                 [\<lparr>sub_id = 1, sub_title = ''Pembuka'', sub_content = ''mula''\<rparr>,
                  \<lparr>sub_id = 2, sub_title = ''Lanjutan'', sub_content = ''lalu''\<rparr>],
               pageNumber = None\<rparr>]
   \<and> sortFiles codeUnitCompare
        [textFile ''3.2 Lanjutan.txt'' ''Buku/BAB 3 - Awal/3.2 Lanjutan.txt'' ''lalu'',
         textFile ''3.1 Pembuka.txt'' ''Buku/BAB 3 - Awal/3.1 Pembuka.txt'' ''mula'']
      = [textFile ''3.1 Pembuka.txt'' ''Buku/BAB 3 - Awal/3.1 Pembuka.txt'' ''mula'',
         textFile ''3.2 Lanjutan.txt'' ''Buku/BAB 3 - Awal/3.2 Lanjutan.txt'' ''lalu'']
   \<and> List.map_filter (groupRequest codeUnitCompare)
        (groupFiles
          [textFile ''3.2 Lanjutan.txt'' ''Buku/BAB 3 - Awal/3.2 Lanjutan.txt'' ''lalu'',
           textFile ''3.1 Pembuka.txt'' ''Buku/BAB 3 - Awal/3.1 Pembuka.txt'' ''mula''])
      = [(''Awal'', [(''Pembuka'', ''mula''), (''Lanjutan'', ''lalu'')])]
   \<and> sorted_wrt (\<lambda>a b. codeUnitCompare (name a) (name b) \<le> 0)
        (sortFiles codeUnitCompare
          [textFile ''3.2 Lanjutan.txt'' ''Buku/BAB 3 - Awal/3.2 Lanjutan.txt'' ''lalu'',
           textFile ''3.1 Pembuka.txt'' ''Buku/BAB 3 - Awal/3.1 Pembuka.txt'' ''mula''])"
proof -
  have total: "\<forall>a b. codeUnitCompare a b \<le> 0 \<or> codeUnitCompare b a \<le> 0"
    using codeUnitCompare_total by blast
  have trans: "\<forall>a b c. codeUnitCompare a b \<le> 0 \<and> codeUnitCompare b c \<le> 0
                 \<longrightarrow> codeUnitCompare a c \<le> 0"
    using codeUnitCompare_trans by blast
  note inst = C6_sub_chapters_in_sorted_order [where lc = codeUnitCompare and u = 0
      and p = "''mula''" and q = "''lalu''"
      and files = "[textFile ''3.2 Lanjutan.txt'' ''Buku/BAB 3 - Awal/3.2 Lanjutan.txt'' ''lalu'',
         textFile ''3.1 Pembuka.txt'' ''Buku/BAB 3 - Awal/3.1 Pembuka.txt'' ''mula'']"
      and fs = "[textFile ''3.2 Lanjutan.txt'' ''Buku/BAB 3 - Awal/3.2 Lanjutan.txt'' ''lalu'',
         textFile ''3.1 Pembuka.txt'' ''Buku/BAB 3 - Awal/3.1 Pembuka.txt'' ''mula'']"]
  note example = inst [THEN conjunct1, THEN mp,
      OF conjI [OF compare_Pembuka_Lanjutan(1) compare_Pembuka_Lanjutan(2)], THEN conjunct2]
  note general = inst [THEN conjunct2, THEN conjunct1, THEN spec, THEN mp]
  note sorting = inst [THEN conjunct2, THEN conjunct2, THEN mp, OF conjI [OF total trans],
      THEN conjunct1]
  have run: "handleBulkUpload codeUnitCompare
        [textFile ''3.2 Lanjutan.txt'' ''Buku/BAB 3 - Awal/3.2 Lanjutan.txt'' ''lalu'',
         textFile ''3.1 Pembuka.txt'' ''Buku/BAB 3 - Awal/3.1 Pembuka.txt'' ''mula''] 0
      = Inr [\<lparr>chapter_id = 0, title = ''Awal'', content = [], images = [],
               chapter_type = Chapter, indentation = 0, lineSpacing = 3 / 2,
               subChapters =
                 [\<lparr>sub_id = 1, sub_title = ''Pembuka'', sub_content = ''mula''\<rparr>,
                  \<lparr>sub_id = 2, sub_title = ''Lanjutan'', sub_content = ''lalu''\<rparr>],
               pageNumber = None\<rparr>]"
    using example by (simp add: textFile_def numeral_2_eq_2)
  have sorted: "sortFiles codeUnitCompare
        [textFile ''3.2 Lanjutan.txt'' ''Buku/BAB 3 - Awal/3.2 Lanjutan.txt'' ''lalu'',
         textFile ''3.1 Pembuka.txt'' ''Buku/BAB 3 - Awal/3.1 Pembuka.txt'' ''mula'']
      = [textFile ''3.1 Pembuka.txt'' ''Buku/BAB 3 - Awal/3.1 Pembuka.txt'' ''mula'',
         textFile ''3.2 Lanjutan.txt'' ''Buku/BAB 3 - Awal/3.2 Lanjutan.txt'' ''lalu'']"
    using compare_Pembuka_Lanjutan by (simp add: sortFiles_def textFile_def)
  have pairs: "List.map_filter (groupRequest codeUnitCompare)
        (groupFiles
          [textFile ''3.2 Lanjutan.txt'' ''Buku/BAB 3 - Awal/3.2 Lanjutan.txt'' ''lalu'',
           textFile ''3.1 Pembuka.txt'' ''Buku/BAB 3 - Awal/3.1 Pembuka.txt'' ''mula''])
      = [(''Awal'', [(''Pembuka'', ''mula''), (''Lanjutan'', ''lalu'')])]"
    using general [OF run] by (simp add: mainChapters_def chapterPair_def subPair_def)
  show ?thesis
    by (intro conjI compare_Pembuka_Lanjutan run sorted pairs sorting)
qed

section \<open>The handler as a sequence of steps\<close>












section \<open>A single marked file\<close>

lemma names_BAB1_root:
  "frontmatterName ''BAB 1 - 1.1 Kata Pengantar.txt''"
  "\<not> backmatterName ''BAB 1 - 1.1 Kata Pengantar.txt''"
  "chapterMatch ''BAB 1 - 1.1 Kata Pengantar.txt'' = Some (''1'', ''1.1 Kata Pengantar.txt'')"
  "subChapterMatch ''BAB 1 - 1.1 Kata Pengantar.txt'' = Some (''1.1'', ''Kata Pengantar'')"
  "split CHR ''/'' ''Buku/BAB 1 - 1.1 Kata Pengantar.txt''
     = [''Buku'', ''BAB 1 - 1.1 Kata Pengantar.txt'']"
  by code_simp+

text \<open>
  C7, as stated, fails in two ways.  The name \<open>Kata Pengantar dan Penutup.txt\<close> contains
  the back-matter marker too, and the single file is handed over once as front matter and
  once as back matter.  The file \<open>BAB 1 - 1.1 Kata Pengantar.txt\<close> lies directly beneath
  the upload root, in no folder, and has the front-matter marker only; the second segment
  of its path is its own name, which matches the chapter pattern, and the name matches
  the sub-chapter pattern: the file is handed over as front matter and as a chapter.
\<close>

theorem C7_two_requests_counterexample:
  "frontmatterName ''Kata Pengantar dan Penutup.txt''
   \<and> \<not> inChapterFolder (textFile ''Kata Pengantar dan Penutup.txt''
          ''Buku/Kata Pengantar dan Penutup.txt'' ''salam'')
   \<and> handleBulkUpload codeUnitCompare
        [textFile ''Kata Pengantar dan Penutup.txt'' ''Buku/Kata Pengantar dan Penutup.txt''
           ''salam''] 0
      = Inr [\<lparr>chapter_id = 0, title = ''Kata Pengantar'', content = ''salam'', images = [],
               chapter_type = Frontmatter, indentation = 0, lineSpacing = 3 / 2,
               subChapters = [], pageNumber = None\<rparr>,
             \<lparr>chapter_id = 1, title = ''Penutup'', content = ''salam'', images = [],
               chapter_type = Backmatter, indentation = 0, lineSpacing = 3 / 2,
               subChapters = [], pageNumber = None\<rparr>]
   \<and> frontmatterName ''BAB 1 - 1.1 Kata Pengantar.txt''
   \<and> \<not> backmatterName ''BAB 1 - 1.1 Kata Pengantar.txt''
   \<and> split CHR ''/'' ''Buku/BAB 1 - 1.1 Kata Pengantar.txt''
        = [''Buku'', ''BAB 1 - 1.1 Kata Pengantar.txt'']
   \<and> handleBulkUpload codeUnitCompare
        [textFile ''BAB 1 - 1.1 Kata Pengantar.txt'' ''Buku/BAB 1 - 1.1 Kata Pengantar.txt''
           ''salam''] 0
      = Inr [\<lparr>chapter_id = 0, title = ''Kata Pengantar'', content = ''salam'', images = [],
               chapter_type = Frontmatter, indentation = 0, lineSpacing = 3 / 2,
               subChapters = [], pageNumber = None\<rparr>,
             \<lparr>chapter_id = 1, title = ''1.1 Kata Pengantar.txt'', content = [], images = [],
               chapter_type = Chapter, indentation = 0, lineSpacing = 3 / 2,
               subChapters =
                 [\<lparr>sub_id = 2, sub_title = ''Kata Pengantar'', sub_content = ''salam''\<rparr>],
               pageNumber = None\<rparr>]"
  by (simp add: handler_defs inChapterFolder_def textFile_def names_both_markers names_BAB1_root)

section \<open>Stopping at a rejected read\<close>



section \<open>A single marked file: one front-matter chapter\<close>

text \<open>
  C7, amended.  A batch of a single readable file whose name contains the front-matter
  marker and not the back-matter marker gives exactly one chapter, of type
  \<open>frontmatter\<close>, with the file's text as content, and no main chapter and no back
  matter, provided the folder loop makes no sub-chapter of the file: the second segment
  of its path (the folder directly beneath the upload root or, for a file directly
  beneath the root, the file's own name) does not match the chapter pattern, or the
  file's name does not match the sub-chapter pattern.
\<close>

theorem C7_single_front_matter_file:
  assumes "frontmatterName (name f)" and "\<not> backmatterName (name f)"
    and "inChapterFolder f \<longrightarrow> subChapterMatch (name f) = None"
    and "file_text f = Inr t"
  shows "handleBulkUpload lc [f] u
           = Inr [\<lparr>chapter_id = u, title = ''Kata Pengantar'', content = t, images = [],
                    chapter_type = Frontmatter, indentation = 0, lineSpacing = 3 / 2,
                    subChapters = [], pageNumber = None\<rparr>]"
proof (cases "parentFolder f")
  case None
  with assms show ?thesis
    by (simp add: handleBulkUpload_def matterStep_def groupFiles_def groupStep_def)
next
  case (Some k)
  show ?thesis
  proof (cases "chapterMatch k")
    case None
    with Some assms show ?thesis
      by (simp add: handleBulkUpload_def matterStep_def groupFiles_def groupStep_def has_def
          set_empty_def get_push_def)
  next
    case match: (Some p)
    obtain num ct where p: "p = (num, ct)" by (cases p)
    from Some match have "inChapterFolder f" by (simp add: inChapterFolder_def)
    with assms(3) have "subChapterMatch (name f) = None" by simp
    with Some match p assms show ?thesis
      by (simp add: handleBulkUpload_def matterStep_def groupFiles_def groupStep_def has_def
          set_empty_def get_push_def sortFiles_def)
  qed
qed

theorem C7_single_front_matter_file_witness:
  "frontmatterName ''Kata Pengantar Penulis.txt''
   \<and> \<not> backmatterName ''Kata Pengantar Penulis.txt''
   \<and> \<not> inChapterFolder (textFile ''Kata Pengantar Penulis.txt''
          ''Buku/Kata Pengantar Penulis.txt'' ''salam'')
   \<and> handleBulkUpload codeUnitCompare
        [textFile ''Kata Pengantar Penulis.txt'' ''Buku/Kata Pengantar Penulis.txt'' ''salam''] 0
      = Inr [\<lparr>chapter_id = 0, title = ''Kata Pengantar'', content = ''salam'', images = [],
               chapter_type = Frontmatter, indentation = 0, lineSpacing = 3 / 2,
               subChapters = [], pageNumber = None\<rparr>]
   \<and> inChapterFolder (textFile ''BAB 1 - Kata Pengantar.txt''
          ''Buku/BAB 1 - Kata Pengantar.txt'' ''salam'')
   \<and> subChapterMatch ''BAB 1 - Kata Pengantar.txt'' = None
   \<and> handleBulkUpload codeUnitCompare
        [textFile ''BAB 1 - Kata Pengantar.txt'' ''Buku/BAB 1 - Kata Pengantar.txt'' ''salam''] 0
      = Inr [\<lparr>chapter_id = 0, title = ''Kata Pengantar'', content = ''salam'', images = [],
               chapter_type = Frontmatter, indentation = 0, lineSpacing = 3 / 2,
               subChapters = [], pageNumber = None\<rparr>]"
proof -
  have names: "frontmatterName ''BAB 1 - Kata Pengantar.txt''"
    "\<not> backmatterName ''BAB 1 - Kata Pengantar.txt''"
    "chapterMatch ''BAB 1 - Kata Pengantar.txt'' = Some (''1'', ''Kata Pengantar.txt'')"
    "subChapterMatch ''BAB 1 - Kata Pengantar.txt'' = None"
    "split CHR ''/'' ''Buku/BAB 1 - Kata Pengantar.txt'' = [''Buku'', ''BAB 1 - Kata Pengantar.txt'']"
    by code_simp+
  have h: "frontmatterName (name (textFile ''Kata Pengantar Penulis.txt''
              ''Buku/Kata Pengantar Penulis.txt'' ''salam''))"
    "\<not> backmatterName (name (textFile ''Kata Pengantar Penulis.txt''
              ''Buku/Kata Pengantar Penulis.txt'' ''salam''))"
    "inChapterFolder (textFile ''Kata Pengantar Penulis.txt''
              ''Buku/Kata Pengantar Penulis.txt'' ''salam'')
       \<longrightarrow> subChapterMatch (name (textFile ''Kata Pengantar Penulis.txt''
              ''Buku/Kata Pengantar Penulis.txt'' ''salam'')) = None"
    "file_text (textFile ''Kata Pengantar Penulis.txt''
              ''Buku/Kata Pengantar Penulis.txt'' ''salam'') = Inr ''salam''"
    and out: "\<not> inChapterFolder (textFile ''Kata Pengantar Penulis.txt''
              ''Buku/Kata Pengantar Penulis.txt'' ''salam'')"
    by (simp_all add: textFile_def inChapterFolder_def parentFolder_def names_Penulis)
  have g: "frontmatterName (name (textFile ''BAB 1 - Kata Pengantar.txt''
              ''Buku/BAB 1 - Kata Pengantar.txt'' ''salam''))"
    "\<not> backmatterName (name (textFile ''BAB 1 - Kata Pengantar.txt''
              ''Buku/BAB 1 - Kata Pengantar.txt'' ''salam''))"
    "inChapterFolder (textFile ''BAB 1 - Kata Pengantar.txt''
              ''Buku/BAB 1 - Kata Pengantar.txt'' ''salam'')
       \<longrightarrow> subChapterMatch (name (textFile ''BAB 1 - Kata Pengantar.txt''
              ''Buku/BAB 1 - Kata Pengantar.txt'' ''salam'')) = None"
    "file_text (textFile ''BAB 1 - Kata Pengantar.txt''
              ''Buku/BAB 1 - Kata Pengantar.txt'' ''salam'') = Inr ''salam''"
    and inside: "inChapterFolder (textFile ''BAB 1 - Kata Pengantar.txt''
              ''Buku/BAB 1 - Kata Pengantar.txt'' ''salam'')"
    by (simp_all add: textFile_def inChapterFolder_def parentFolder_def names)
  from C7_single_front_matter_file [OF h, of codeUnitCompare 0]
    C7_single_front_matter_file [OF g, of codeUnitCompare 0] out inside names(4)
  show ?thesis
    by (simp add: names_Penulis)
qed

end
